theory Spec2Isabelle
  imports Complex_Main
begin

section \<open>Python values, errors and strings\<close>

text \<open>
  The development embeds the extraction pipeline (\<^verbatim>\<open>src/src/parser.py\<close>) and the
  analysis layer (\<^verbatim>\<open>src/src/analyzer.py\<close>) of the Avito monitor.

  Conventions of the embedding:
  \<^item> a Python function that can raise returns \<open>py_error + 'a\<close> (\<open>Inl\<close> is the exception);
  \<^item> a Python \<^verbatim>\<open>dict\<close> with string keys is a map \<open>string \<rightharpoonup> 'v\<close>;
  \<^item> a finite Python number (\<^verbatim>\<open>int\<close> or \<^verbatim>\<open>float\<close>) is the exact real it stands for: the
    rounding of IEEE doubles inside their range is not part of the model. The analysis
    layer is modelled over finite numbers, with \<open>NaN\<close> kept as a separate value because
    pandas uses it for missing cells. The extractor's \<^verbatim>\<open>float(s)\<close> overflows to \<^verbatim>\<open>inf\<close> on
    a long run of digits and underflows to \<open>0.0\<close>, so the numbers of the records it
    builds are finite or \<open>+inf\<close>;
  \<^item> text is an Isabelle \<open>string\<close>; the character classes of \<^verbatim>\<open>str.isdigit\<close>,
    \<^verbatim>\<open>str.strip\<close>, \<^verbatim>\<open>\d\<close> and \<^verbatim>\<open>\s\<close> are the ASCII ones, the Cyrillic literals of the
    source are their UTF-8 bytes.
\<close>

datatype py_error =
    TypeError
  | ValueError
  | KeyError
  | ZeroDivisionError
  | RequestException
  | OtherException string

text \<open>
  A value stored in a record: a number, a string or \<^verbatim>\<open>nan\<close>. The numbers are reals in
  the records the analysis layer reads (\<open>listing\<close>) and floats that may be infinite in the
  records the extractor builds (\<open>item\<close>).
\<close>

datatype 'n pyval = Num 'n | Str string | NaN

datatype pyfloat = Finite real | PosInf

type_synonym listing = "string \<rightharpoonup> real pyval"

type_synonym item = "string \<rightharpoonup> pyfloat pyval"

type_synonym stats = "string \<rightharpoonup> real"

definition bind_err :: "'e + 'a \<Rightarrow> ('a \<Rightarrow> 'e + 'b) \<Rightarrow> 'e + 'b" where
  "bind_err m f = (case m of Inl e \<Rightarrow> Inl e | Inr v \<Rightarrow> f v)"

text \<open>\<^verbatim>\<open>str(e)\<close> of a caught exception.\<close>

fun error_message :: "py_error \<Rightarrow> string" where
  "error_message TypeError = ''TypeError''"
| "error_message ValueError = ''ValueError''"
| "error_message KeyError = ''KeyError''"
| "error_message ZeroDivisionError = ''division by zero''"
| "error_message RequestException = ''RequestException''"
| "error_message (OtherException msg) = msg"

definition is_digit :: "char \<Rightarrow> bool" where
  "is_digit c = (c \<in> set ''0123456789'')"

definition is_space :: "char \<Rightarrow> bool" where
  "is_space c = (c \<in> set [CHR 0x09, CHR 0x0A, CHR 0x0B, CHR 0x0C, CHR 0x0D,
                           CHR 0x1C, CHR 0x1D, CHR 0x1E, CHR 0x1F, CHR 0x20])"

text \<open>\<^verbatim>\<open>s.strip()\<close>.\<close>

definition strip :: "string \<Rightarrow> string" where
  "strip s = rev (dropWhile is_space (rev (dropWhile is_space s)))"

definition starts_with :: "string \<Rightarrow> string \<Rightarrow> bool" where
  "starts_with p s = (take (length p) s = p)"

text \<open>\<^verbatim>\<open>sub in s\<close>.\<close>

fun contains :: "string \<Rightarrow> string \<Rightarrow> bool" where
  "contains sub [] = (sub = [])"
| "contains sub (c # cs) = (starts_with sub (c # cs) \<or> contains sub cs)"

definition digit_value :: "char \<Rightarrow> nat" where
  "digit_value c = of_char c - 48"

definition nat_of_digits :: "string \<Rightarrow> nat" where
  "nat_of_digits ds = foldl (\<lambda>n c. 10 * n + digit_value c) 0 ds"

text \<open>
  The float that a decimal numeral of value \<open>v \<ge> 0\<close> converts to, at the two ends of the
  range of float64, where rounding to the nearest double changes what the extractor does
  next: \<^verbatim>\<open>inf\<close> from halfway between the largest double \<open>2 ^ 1024 - 2 ^ 971\<close> and
  \<open>2 ^ 1024\<close>, and \<open>0.0\<close> up to half the smallest double \<open>1 / 2 ^ 1074\<close>. In between
  it is the value itself.
\<close>

definition float_of_value :: "real \<Rightarrow> pyfloat" where
  "float_of_value v =
     (if 2 ^ 1024 - 2 ^ 970 \<le> v then PosInf
      else if v \<le> 1 / 2 ^ 1075 then Finite 0
      else Finite v)"

text \<open>
  \<^verbatim>\<open>float(s)\<close> on the strings the extractor passes to it, which hold decimal digits,
  dots and white space only: an optional integer part, an optional dot with an optional
  fraction, at least one digit, surrounding white space ignored; anything else is a
  \<^verbatim>\<open>ValueError\<close>. No exception is raised on overflow.
\<close>

definition py_float :: "string \<Rightarrow> py_error + pyfloat" where
  "py_float s =
     (let t = strip s; ip = takeWhile is_digit t
      in case dropWhile is_digit t of
           [] \<Rightarrow>
             if ip = [] then Inl ValueError
             else Inr (float_of_value (real (nat_of_digits ip)))
         | c # fp \<Rightarrow>
             if c = CHR ''.'' \<and> list_all is_digit fp \<and> (ip \<noteq> [] \<or> fp \<noteq> [])
             then Inr (float_of_value
                         (real (nat_of_digits ip) + real (nat_of_digits fp) / 10 ^ length fp))
             else Inl ValueError)"




text \<open>\<^verbatim>\<open>str(n)\<close> of a non-negative integer.\<close>

fun str_nat :: "nat \<Rightarrow> string" where
  "str_nat n =
     (if n < 10 then [''0123456789'' ! n]
      else str_nat (n div 10) @ [''0123456789'' ! (n mod 10)])"

text \<open>
  \<^verbatim>\<open>s.lower()\<close> on UTF-8 text: the ASCII capitals and the Cyrillic capitals
  U+0400 to U+042F (lead byte \<open>0xD0\<close>) are mapped to their small letters.
\<close>

definition ascii_lower :: "char \<Rightarrow> char" where
  "ascii_lower c =
     (let n = (of_char c :: nat) in if 65 \<le> n \<and> n \<le> 90 then char_of (n + 32) else c)"

fun py_lower :: "string \<Rightarrow> string" where
  "py_lower [] = []"
| "py_lower [c] = [ascii_lower c]"
| "py_lower (c # d # cs) =
     (let n = (of_char d :: nat)
      in if c = CHR 0xD0 \<and> 0x90 \<le> n \<and> n \<le> 0x9F
           then CHR 0xD0 # char_of (n + 0x20) # py_lower cs
         else if c = CHR 0xD0 \<and> 0xA0 \<le> n \<and> n \<le> 0xAF
           then CHR 0xD1 # char_of (n - 0x20) # py_lower cs
         else if c = CHR 0xD0 \<and> 0x80 \<le> n \<and> n \<le> 0x8F
           then CHR 0xD1 # char_of (n + 0x10) # py_lower cs
         else ascii_lower c # py_lower (d # cs))"

section \<open>Analyzer\<close>

subsection \<open>Price statistics\<close>

text \<open>
  \<^verbatim>\<open>[p for p in prices if p > 0]\<close>: comparing a string with \<^verbatim>\<open>0\<close> raises
  \<^verbatim>\<open>TypeError\<close>, \<^verbatim>\<open>nan > 0\<close> is false.
\<close>

fun positive_prices :: "real pyval list \<Rightarrow> py_error + real list" where
  "positive_prices [] = Inr []"
| "positive_prices (Str s # ps) = Inl TypeError"
| "positive_prices (NaN # ps) = positive_prices ps"
| "positive_prices (Num r # ps) =
     (case positive_prices ps of
        Inl e \<Rightarrow> Inl e
      | Inr rs \<Rightarrow> Inr (if 0 < r then r # rs else rs))"

text \<open>
  \<^verbatim>\<open>np.mean\<close> and \<^verbatim>\<open>np.median\<close> as exact quotients: the rounding of numpy's float64 sum
  and division is not modelled, so these values agree with the computed ones up to
  rounding only.
\<close>

definition np_mean :: "real list \<Rightarrow> real" where
  "np_mean xs = sum_list xs / real (length xs)"

definition np_median :: "real list \<Rightarrow> real" where
  "np_median xs =
     (let s = sort xs; n = length s
      in if even n then (s ! (n div 2 - 1) + s ! (n div 2)) / 2 else s ! (n div 2))"

text \<open>\<^verbatim>\<open>np.std\<close>: the population standard deviation (\<^verbatim>\<open>ddof = 0\<close>).\<close>

definition np_std :: "real list \<Rightarrow> real" where
  "np_std xs = sqrt (np_mean (map (\<lambda>x. (x - np_mean xs)\<^sup>2) xs))"

text \<open>\<^verbatim>\<open>[item.get('price', 0) for item in data]\<close>.\<close>

definition prices_of :: "listing list \<Rightarrow> real pyval list" where
  "prices_of data = map (\<lambda>item. case item ''price'' of None \<Rightarrow> Num 0 | Some v \<Rightarrow> v) data"

definition get_price_statistics :: "listing list \<Rightarrow> py_error + stats" where
  "get_price_statistics data =
     (if data = [] then
        Inr [''count'' \<mapsto> 0, ''avg_price'' \<mapsto> 0, ''median_price'' \<mapsto> 0,
             ''min_price'' \<mapsto> 0, ''max_price'' \<mapsto> 0, ''std_price'' \<mapsto> 0]
      else
        let prices = prices_of data
        in case positive_prices prices of
             Inl e \<Rightarrow> Inl e
           | Inr [] \<Rightarrow>
               Inr [''count'' \<mapsto> real (length data), ''avg_price'' \<mapsto> 0,
                    ''median_price'' \<mapsto> 0, ''min_price'' \<mapsto> 0, ''max_price'' \<mapsto> 0,
                    ''std_price'' \<mapsto> 0, ''zero_prices_count'' \<mapsto> real (length data)]
           | Inr (p # ps) \<Rightarrow>
               Inr [''count'' \<mapsto> real (length data),
                    ''avg_price'' \<mapsto> np_mean (p # ps),
                    ''median_price'' \<mapsto> np_median (p # ps),
                    ''min_price'' \<mapsto> fold min ps p,
                    ''max_price'' \<mapsto> fold max ps p,
                    ''std_price'' \<mapsto> np_std (p # ps),
                    ''zero_prices_count'' \<mapsto>
                       real (length prices) - real (length (p # ps))])"

subsection \<open>Outliers\<close>

text \<open>
  \<^verbatim>\<open>pd.DataFrame(data)\<close>: the columns are the keys of all records, a record without a
  key gets \<open>NaN\<close> in that column.
\<close>

definition has_column :: "listing list \<Rightarrow> string \<Rightarrow> bool" where
  "has_column data k = (\<exists>r \<in> set data. r k \<noteq> None)"

definition df_row :: "listing list \<Rightarrow> listing \<Rightarrow> listing" where
  "df_row data r =
     (\<lambda>k. if has_column data k then Some (case r k of None \<Rightarrow> NaN | Some v \<Rightarrow> v) else None)"

text \<open>
  \<^verbatim>\<open>df[df['price'] > 0]\<close>: the rows with a positive price, each with its price. A string
  in the column makes the comparison raise, a missing price compares false.
\<close>

fun rows_with_positive_price :: "listing list \<Rightarrow> py_error + (real \<times> listing) list" where
  "rows_with_positive_price [] = Inr []"
| "rows_with_positive_price (r # rs) =
     (case r ''price'' of
        Some (Str s) \<Rightarrow> Inl TypeError
      | Some (Num p) \<Rightarrow>
          (case rows_with_positive_price rs of
             Inl e \<Rightarrow> Inl e
           | Inr out \<Rightarrow> Inr (if 0 < p then (p, r) # out else out))
      | _ \<Rightarrow> rows_with_positive_price rs)"

definition pd_mean :: "real list \<Rightarrow> real" where
  "pd_mean xs = sum_list xs / real (length xs)"

text \<open>
  \<^verbatim>\<open>Series.std()\<close>: the sample standard deviation (pandas' default \<^verbatim>\<open>ddof = 1\<close>),
  \<open>None\<close> standing for the \<open>NaN\<close> that a single value gives.
\<close>

definition pd_std :: "real list \<Rightarrow> real option" where
  "pd_std xs =
     (if length xs < 2 then None
      else Some (sqrt (sum_list (map (\<lambda>x. (x - pd_mean xs)\<^sup>2) xs) / real (length xs - 1))))"

definition find_outliers :: "listing list \<Rightarrow> real \<Rightarrow> py_error + listing list" where
  "find_outliers data z_threshold =
     (if data = [] then Inr []
      else if \<not> has_column data ''price'' then Inl KeyError
      else
        case rows_with_positive_price (map (df_row data) data) of
          Inl e \<Rightarrow> Inl e
        | Inr df_non_zero \<Rightarrow>
            if df_non_zero = [] then Inr []
            else
              let prices = map fst df_non_zero;
                  mean_price = pd_mean prices
              in (case pd_std prices of
                    None \<Rightarrow> Inr []
                  | Some std_price \<Rightarrow>
                      if std_price = 0 then Inr []
                      else
                        Inr (map (\<lambda>(p, r). r(''z_score'' := None))
                               (filter (\<lambda>(p, r). z_threshold < \<bar>(p - mean_price) / std_price\<bar>)
                                  df_non_zero))))"

subsection \<open>Comparison\<close>

datatype cval = CBool bool | CNum real

definition getitem :: "stats \<Rightarrow> string \<Rightarrow> py_error + real" where
  "getitem d k = (case d k of None \<Rightarrow> Inl KeyError | Some v \<Rightarrow> Inr v)"

definition py_div :: "real \<Rightarrow> real \<Rightarrow> py_error + real" where
  "py_div a b = (if b = 0 then Inl ZeroDivisionError else Inr (a / b))"

text \<open>\<^verbatim>\<open>(change / previous * 100) if previous > 0 else 0\<close>.\<close>

definition percent_change :: "real \<Rightarrow> real \<Rightarrow> py_error + real" where
  "percent_change change previous =
     (if 0 < previous then bind_err (py_div change previous) (\<lambda>q. Inr (q * 100)) else Inr 0)"

definition compare_with_previous ::
  "listing list \<Rightarrow> listing list \<Rightarrow> py_error + (string \<rightharpoonup> cval)" where
  "compare_with_previous current_data previous_data =
     (if current_data = [] \<or> previous_data = [] then
        Inr [''comparison_available'' \<mapsto> CBool False]
      else
        bind_err (get_price_statistics current_data) (\<lambda>current_stats.
        bind_err (get_price_statistics previous_data) (\<lambda>previous_stats.
        bind_err (getitem current_stats ''avg_price'') (\<lambda>cur_avg.
        bind_err (getitem previous_stats ''avg_price'') (\<lambda>prev_avg.
        bind_err (percent_change (cur_avg - prev_avg) prev_avg) (\<lambda>avg_price_change_percent.
        bind_err (getitem current_stats ''median_price'') (\<lambda>cur_med.
        bind_err (getitem previous_stats ''median_price'') (\<lambda>prev_med.
        bind_err (percent_change (cur_med - prev_med) prev_med) (\<lambda>median_price_change_percent.
        bind_err (getitem current_stats ''count'') (\<lambda>cur_count.
        bind_err (getitem previous_stats ''count'') (\<lambda>prev_count.
        bind_err (getitem current_stats ''max_price'') (\<lambda>cur_max.
        bind_err (getitem previous_stats ''max_price'') (\<lambda>prev_max.
        bind_err (getitem current_stats ''min_price'') (\<lambda>cur_min.
        bind_err (getitem previous_stats ''min_price'') (\<lambda>prev_min.
          Inr [''comparison_available'' \<mapsto> CBool True,
               ''current_count'' \<mapsto> CNum cur_count,
               ''previous_count'' \<mapsto> CNum prev_count,
               ''count_change'' \<mapsto> CNum (cur_count - prev_count),
               ''avg_price_change'' \<mapsto> CNum (cur_avg - prev_avg),
               ''avg_price_change_percent'' \<mapsto> CNum avg_price_change_percent,
               ''median_price_change'' \<mapsto> CNum (cur_med - prev_med),
               ''median_price_change_percent'' \<mapsto> CNum median_price_change_percent,
               ''max_price_change'' \<mapsto> CNum (cur_max - prev_max),
               ''min_price_change'' \<mapsto> CNum (cur_min - prev_min)])))))))))))))))"

section \<open>Parser\<close>

subsection \<open>Configuration\<close>

record parser_cfg =
  timeout :: int
  max_retries :: int
  delay :: int
  rotate_ua :: bool



subsection \<open>Listing fragments and the outside world\<close>

text \<open>
  A BeautifulSoup element is what the extractor reads of it: \<^verbatim>\<open>el.text\<close> and
  \<^verbatim>\<open>el.attrs\<close>. A listing fragment is the answers to the queries the extractor makes:
  \<^verbatim>\<open>item_element.get(name)\<close>, \<^verbatim>\<open>item_element.select_one(selector)\<close>,
  \<^verbatim>\<open>str(item_element)\<close> and \<^verbatim>\<open>item_element.get_text(strip=True)\<close>. Each query may
  raise, so that the \<^verbatim>\<open>except Exception\<close> branch of the extractor is a path of the model.
\<close>

record element =
  el_text :: string
  el_attrs :: "string \<rightharpoonup> string"

record fragment =
  attr_get :: "string \<Rightarrow> py_error + string option"
  select_one :: "string \<Rightarrow> py_error + element option"
  html_str :: "py_error + string"
  get_text :: "py_error + string"

text \<open>
  The outside world of one run: what the \<open>k\<close>-th HTTP attempt of the run answers for a
  URL (the page text, or the exception raised inside the \<^verbatim>\<open>try\<close> block), the \<open>k\<close>-th
  value of \<^verbatim>\<open>random.random()\<close>, and the listing fragments that BeautifulSoup selects
  with \<^verbatim>\<open>[data-marker="item"]\<close> from a page text.
\<close>

datatype response = Body string | Raise py_error

record world =
  http_get :: "string \<Rightarrow> nat \<Rightarrow> response"
  random :: "nat \<Rightarrow> real"
  select_items :: "string \<Rightarrow> fragment list"

record run_state =
  attempts :: nat
  draws :: nat
  slept :: "real list"

text \<open>\<^verbatim>\<open>time.sleep(t)\<close>: a negative length raises \<^verbatim>\<open>ValueError\<close>.\<close>

definition time_sleep :: "real \<Rightarrow> run_state \<Rightarrow> py_error + run_state" where
  "time_sleep t st = (if t < 0 then Inl ValueError else Inr (st\<lparr>slept := slept st @ [t]\<rparr>))"

text \<open>\<^verbatim>\<open>random.uniform(a, b)\<close> is \<^verbatim>\<open>a + (b - a) * random()\<close>.\<close>

definition uniform :: "world \<Rightarrow> real \<Rightarrow> real \<Rightarrow> run_state \<Rightarrow> real \<times> run_state" where
  "uniform w a b st = (a + (b - a) * random w (draws st), st\<lparr>draws := Suc (draws st)\<rparr>)"

subsection \<open>Fetcher\<close>

text \<open>
  The body of \<^verbatim>\<open>_make_request\<close>: the loop \<^verbatim>\<open>for attempt in range(self.max_retries)\<close>
  over the attempt numbers still to try. Only \<^verbatim>\<open>requests.RequestException\<close> is caught.
\<close>

fun request_attempts ::
  "world \<Rightarrow> parser_cfg \<Rightarrow> string \<Rightarrow> nat list \<Rightarrow> run_state \<Rightarrow>
     (py_error + string option) \<times> run_state" where
  "request_attempts w cfg url [] st = (Inr None, st)"
| "request_attempts w cfg url (attempt # rest) st =
     (let st1 = st\<lparr>attempts := Suc (attempts st)\<rparr>
      in case http_get w url (attempts st) of
           Body text \<Rightarrow> (Inr (Some text), st1)
         | Raise e \<Rightarrow>
             if e = RequestException then
               (if int attempt < max_retries cfg - 1 then
                  (let (jitter, st2) = uniform w 0 1 st1;
                       sleep_time = real_of_int (delay cfg * (int attempt + 1)) + jitter
                   in case time_sleep sleep_time st2 of
                        Inl e' \<Rightarrow> (Inl e', st2)
                      | Inr st3 \<Rightarrow> request_attempts w cfg url rest st3)
                else request_attempts w cfg url rest st1)
             else (Inl e, st1))"

definition make_request ::
  "world \<Rightarrow> parser_cfg \<Rightarrow> string \<Rightarrow> run_state \<Rightarrow> (py_error + string option) \<times> run_state" where
  "make_request w cfg url st = request_attempts w cfg url [0..<nat (max_retries cfg)] st"

subsection \<open>Field extractor\<close>

definition no_title :: string where
  "no_title = [CHR 0xD0, CHR 0x9D, CHR 0xD0, CHR 0xB5, CHR 0xD1, CHR 0x82, CHR 0x20, CHR 0xD0,
     CHR 0xB7, CHR 0xD0, CHR 0xB0, CHR 0xD0, CHR 0xB3, CHR 0xD0, CHR 0xBE, CHR 0xD0, CHR 0xBB,
     CHR 0xD0, CHR 0xBE, CHR 0xD0, CHR 0xB2, CHR 0xD0, CHR 0xBA, CHR 0xD0, CHR 0xB0]"

definition not_specified :: string where
  "not_specified = [CHR 0xD0, CHR 0x9D, CHR 0xD0, CHR 0xB5, CHR 0x20, CHR 0xD1, CHR 0x83,
     CHR 0xD0, CHR 0xBA, CHR 0xD0, CHR 0xB0, CHR 0xD0, CHR 0xB7, CHR 0xD0, CHR 0xB0, CHR 0xD0,
     CHR 0xBD, CHR 0xD0, CHR 0xBE]"

definition delivery :: string where
  "delivery = [CHR 0xD0, CHR 0xB4, CHR 0xD0, CHR 0xBE, CHR 0xD1, CHR 0x81, CHR 0xD1, CHR 0x82,
     CHR 0xD0, CHR 0xB0, CHR 0xD0, CHR 0xB2, CHR 0xD0, CHR 0xBA, CHR 0xD0, CHR 0xB0]"

text \<open>\<^verbatim>\<open>item_element.get(name, default)\<close>.\<close>

definition get_attr :: "fragment \<Rightarrow> string \<Rightarrow> string \<Rightarrow> py_error + string" where
  "get_attr f name dflt =
     bind_err (attr_get f name) (\<lambda>v. Inr (case v of None \<Rightarrow> dflt | Some s \<Rightarrow> s))"

text \<open>
  \<^verbatim>\<open>f.select_one(s1) or f.select_one(s2) or ...\<close>: the first selector with a match;
  later selectors are not tried (an element is always truthy).
\<close>

fun select_first :: "fragment \<Rightarrow> string list \<Rightarrow> py_error + element option" where
  "select_first f [] = Inr None"
| "select_first f (s # ss) =
     (case select_one f s of
        Inl e \<Rightarrow> Inl e
      | Inr (Some el) \<Rightarrow> Inr (Some el)
      | Inr None \<Rightarrow> select_first f ss)"

definition title_selectors :: "string list" where
  \<open>title_selectors = [''[itemprop="name"]'', ''.title-root'', ''[data-marker="item-title"]'']\<close>

definition link_selectors :: "string list" where
  \<open>link_selectors = [''a[href^="/"]'', ''a[itemprop="url"]'']\<close>

definition price_selectors :: "string list" where
  \<open>price_selectors = [''[data-marker="item-price"]'', ''[itemprop="price"]'',
     ''.styles-module-root-_KFFt'', ''.price-text'', ''[class*="price"]'']\<close>

definition location_selectors :: "string list" where
  \<open>location_selectors = [''[data-marker="item-location"]'', ''[class*="geo"]'']\<close>

text \<open>
  \<^verbatim>\<open>re.search\<close> for the markup patterns \<^verbatim>\<open>data-price="(\d+)"\<close>, \<^verbatim>\<open>price":"(\d+)"\<close>,
  \<^verbatim>\<open>price":(\d+)\<close> and \<^verbatim>\<open>price=(\d+)\<close>: a literal, a greedy run of digits (the group)
  and a closing literal, at the leftmost position where all three match.
\<close>

fun search_price :: "string \<Rightarrow> string \<Rightarrow> string \<Rightarrow> string option" where
  "search_price pre suf [] = None"
| "search_price pre suf (c # cs) =
     (let after = drop (length pre) (c # cs); ds = takeWhile is_digit after
      in if starts_with pre (c # cs) \<and> ds \<noteq> [] \<and> starts_with suf (dropWhile is_digit after)
         then Some ds
         else search_price pre suf cs)"

definition price_patterns :: "(string \<times> string) list" where
  \<open>price_patterns = [(''data-price="'', ''"''), (''price":"'', ''"''), (''price":'', []),
     (''price='', [])]\<close>

text \<open>
  The loop over the markup patterns: the price of the first pattern whose match converts,
  \<open>None\<close> when the loop ends without assigning.
\<close>

fun markup_price :: "(string \<times> string) list \<Rightarrow> string \<Rightarrow> pyfloat option" where
  "markup_price [] s = None"
| "markup_price ((pre, suf) # ps) s =
     (case search_price pre suf s of
        None \<Rightarrow> markup_price ps s
      | Some g \<Rightarrow> (case py_float g of Inr v \<Rightarrow> Some v | Inl e \<Rightarrow> markup_price ps s))"

text \<open>
  Group 1 of \<^verbatim>\<open>re.search(r'(\d[\d\s]*\d|\d+)[.,]?\d*\s*(...)?', full_text)\<close>: from the
  first digit of the text, the longest run of digits and white space, cut back to its last
  digit.
\<close>

definition search_text_price :: "string \<Rightarrow> string option" where
  "search_text_price s =
     (let t = dropWhile (\<lambda>c. \<not> is_digit c) s
      in if t = [] then None
         else Some (rev (dropWhile is_space (rev (takeWhile (\<lambda>c. is_digit c \<or> is_space c) t)))))"

definition initial_item :: item where
  "initial_item = [''id'' \<mapsto> Str [], ''title'' \<mapsto> Str [], ''url'' \<mapsto> Str [],
                   ''price'' \<mapsto> Num (Finite 0), ''date'' \<mapsto> Str [], ''location'' \<mapsto> Str []]"

definition extract_id :: "fragment \<Rightarrow> item \<Rightarrow> py_error + item" where
  "extract_id f item_data =
     bind_err (get_attr f ''data-item-id'' []) (\<lambda>item_id.
     bind_err (if item_id = [] then
                 bind_err (get_attr f ''id'' []) (\<lambda>v. Inr (filter (\<lambda>c. c \<noteq> CHR ''i'') v))
               else Inr item_id) (\<lambda>item_id.
       Inr (item_data(''id'' \<mapsto> Str item_id))))"

definition extract_title :: "fragment \<Rightarrow> item \<Rightarrow> py_error + item" where
  "extract_title f item_data =
     bind_err (select_first f title_selectors) (\<lambda>title_element.
       Inr (item_data(''title'' \<mapsto>
              Str (case title_element of Some el \<Rightarrow> strip (el_text el) | None \<Rightarrow> no_title))))"

definition extract_url :: "fragment \<Rightarrow> item \<Rightarrow> py_error + item" where
  "extract_url f item_data =
     bind_err (select_first f link_selectors) (\<lambda>link_element.
       Inr (item_data(''url'' \<mapsto>
              Str (case link_element of
                     None \<Rightarrow> []
                   | Some el \<Rightarrow>
                       (case el_attrs el ''href'' of
                          None \<Rightarrow> []
                        | Some href \<Rightarrow> ''https://www.avito.ru'' @ href)))))"

text \<open>The price cascade: selectors, then markup patterns, then the visible text.\<close>

definition extract_price :: "fragment \<Rightarrow> item \<Rightarrow> py_error + item" where
  "extract_price f item_data =
     bind_err (select_first f price_selectors) (\<lambda>price_element.
     bind_err
       (case price_element of
          Some el \<Rightarrow>
            (let price_text = strip (el_text el);
                 price = filter (\<lambda>x. is_digit x \<or> x = CHR ''.'') price_text
             in Inr (item_data(''price'' \<mapsto>
                  Num (if price = [] then Finite 0
                       else case py_float price of Inr v \<Rightarrow> v | Inl e \<Rightarrow> Finite 0))))
        | None \<Rightarrow>
            bind_err (html_str f) (\<lambda>s.
              Inr (case markup_price price_patterns s of
                     Some v \<Rightarrow> item_data(''price'' \<mapsto> Num v)
                   | None \<Rightarrow> item_data)))
       (\<lambda>item_data.
          case item_data ''price'' of
            None \<Rightarrow> Inl KeyError
          | Some current \<Rightarrow>
              if current = Num (Finite 0) then
                bind_err (get_text f) (\<lambda>full_text.
                  Inr (case search_text_price full_text of
                         None \<Rightarrow> item_data
                       | Some g \<Rightarrow>
                           (case py_float (filter (\<lambda>c. c \<noteq> CHR 0x20) g) of
                              Inr v \<Rightarrow> item_data(''price'' \<mapsto> Num v)
                            | Inl e \<Rightarrow> item_data)))
              else Inr item_data))"

definition extract_date :: "fragment \<Rightarrow> item \<Rightarrow> py_error + item" where
  \<open>extract_date f item_data =
     bind_err (select_one f ''[data-marker="item-date"]'') (\<lambda>date_element.
       Inr (item_data(''date'' \<mapsto>
              Str (case date_element of Some el \<Rightarrow> strip (el_text el) | None \<Rightarrow> []))))\<close>

definition extract_location :: "fragment \<Rightarrow> item \<Rightarrow> py_error + item" where
  \<open>extract_location f item_data =
     bind_err (select_first f location_selectors) (\<lambda>location_element.
       case location_element of
         None \<Rightarrow> Inr (item_data(''location'' \<mapsto> Str not_specified))
       | Some el \<Rightarrow>
           (let location_text = strip (el_text el)
            in if contains delivery (py_lower location_text) then
                 bind_err (select_one f ''[class*="location"]'') (\<lambda>alt_location.
                   Inr (item_data(''location'' \<mapsto>
                          Str (case alt_location of
                                 None \<Rightarrow> not_specified
                               | Some alt \<Rightarrow>
                                   if \<not> contains delivery (py_lower (el_text alt))
                                   then strip (el_text alt) else not_specified))))
               else Inr (item_data(''location'' \<mapsto> Str location_text))))\<close>

text \<open>The \<^verbatim>\<open>try\<close> block of \<^verbatim>\<open>_parse_item\<close>, field after field as the source has them.\<close>

definition parse_item_body :: "fragment \<Rightarrow> py_error + item" where
  "parse_item_body f =
     bind_err (extract_id f initial_item) (\<lambda>d1.
     bind_err (extract_title f d1) (\<lambda>d2.
     bind_err (extract_url f d2) (\<lambda>d3.
     bind_err (extract_price f d3) (\<lambda>d4.
     bind_err (extract_date f d4) (\<lambda>d5.
       extract_location f d5)))))"

text \<open>\<^verbatim>\<open>_parse_item\<close>: the \<^verbatim>\<open>except Exception\<close> branch returns the default record.\<close>

definition parse_item :: "fragment \<Rightarrow> py_error + item" where
  "parse_item f =
     (case parse_item_body f of
        Inr item_data \<Rightarrow> Inr item_data
      | Inl e \<Rightarrow>
          Inr [''id'' \<mapsto> Str [], ''title'' \<mapsto> Str [], ''url'' \<mapsto> Str [],
               ''price'' \<mapsto> Num (Finite 0), ''date'' \<mapsto> Str [], ''location'' \<mapsto> Str [],
               ''error'' \<mapsto> Str (error_message e)])"

subsection \<open>Paginator\<close>

text \<open>The rewriting of the search URL at the start of \<^verbatim>\<open>parse_search_page\<close>.\<close>

definition add_local_priority :: "string \<Rightarrow> bool \<Rightarrow> string" where
  "add_local_priority url local_first =
     (if local_first \<and> contains ''?'' url \<and> \<not> contains ''&localPriority=1'' url
        then url @ ''&localPriority=1''
      else if local_first \<and> \<not> contains ''?'' url
        then url @ ''?localPriority=1''
      else url)"

definition page_url_of :: "string \<Rightarrow> nat \<Rightarrow> string" where
  "page_url_of url page_num =
     (if contains ''?'' url then url @ ''&p='' @ str_nat page_num
      else url @ ''?p='' @ str_nat page_num)"

text \<open>The inner \<^verbatim>\<open>for item in items\<close> loop with its \<^verbatim>\<open>break\<close> at the limit.\<close>

fun parse_items ::
  "fragment list \<Rightarrow> int \<Rightarrow> int \<Rightarrow> item list \<Rightarrow> py_error + (int \<times> item list)" where
  "parse_items [] limit items_count all_items = Inr (items_count, all_items)"
| "parse_items (item # items) limit items_count all_items =
     (if items_count \<ge> limit then Inr (items_count, all_items)
      else case parse_item item of
             Inl e \<Rightarrow> Inl e
           | Inr item_data \<Rightarrow> parse_items items limit (items_count + 1) (all_items @ [item_data]))"

text \<open>
  The \<^verbatim>\<open>while items_count < limit\<close> loop. \<open>None\<close> is a loop that never ends, \<open>Some\<close> holds
  the exception that escaped or the list returned, and the state of the run.
\<close>

partial_function (option) search_loop ::
  "world \<Rightarrow> parser_cfg \<Rightarrow> string \<Rightarrow> int \<Rightarrow> nat \<Rightarrow> int \<Rightarrow> item list \<Rightarrow> run_state \<Rightarrow>
     ((py_error + item list) \<times> run_state) option" where
  "search_loop w cfg url limit page_num items_count all_items st =
     (if items_count < limit then
        (case make_request w cfg (page_url_of url page_num) st of
           (Inl e, st1) \<Rightarrow> Some (Inl e, st1)
         | (Inr None, st1) \<Rightarrow> Some (Inr all_items, st1)
         | (Inr (Some html_content), st1) \<Rightarrow>
             if html_content = [] then Some (Inr all_items, st1)
             else
               (let items = select_items w html_content
                in if items = [] then Some (Inr all_items, st1)
                   else
                     (case parse_items items limit items_count all_items of
                        Inl e \<Rightarrow> Some (Inl e, st1)
                      | Inr (items_count', all_items') \<Rightarrow>
                          if items_count' \<ge> limit then Some (Inr all_items', st1)
                          else if length items < 50 then Some (Inr all_items', st1)
                          else
                            (let (jitter, st2) = uniform w 0 2 st1
                             in case time_sleep (real_of_int (delay cfg) + jitter) st2 of
                                  Inl e \<Rightarrow> Some (Inl e, st2)
                                | Inr st3 \<Rightarrow>
                                    search_loop w cfg url limit (page_num + 1) items_count'
                                      all_items' st3))))
      else Some (Inr all_items, st))"

definition parse_search_page ::
  "world \<Rightarrow> parser_cfg \<Rightarrow> string \<Rightarrow> int \<Rightarrow> bool \<Rightarrow> run_state \<Rightarrow>
     ((py_error + item list) \<times> run_state) option" where
  "parse_search_page w cfg url limit local_first st =
     search_loop w cfg (add_local_priority url local_first) limit 1 0 [] st"

section \<open>Example inputs\<close>

text \<open>Concrete records, used to run the functions above on explicit inputs.\<close>

definition listing_of :: "string \<Rightarrow> real \<Rightarrow> listing" where
  "listing_of i p = [''id'' \<mapsto> Str i, ''title'' \<mapsto> Str ''item'', ''url'' \<mapsto> Str [],
                     ''price'' \<mapsto> Num p, ''date'' \<mapsto> Str [], ''location'' \<mapsto> Str []]"

text \<open>The record list of the specification's outlier example: prices 100 (four times) and 10000.\<close>

definition spec_example :: "listing list" where
  "spec_example = [listing_of ''1'' 100, listing_of ''2'' 100, listing_of ''3'' 100,
                   listing_of ''4'' 100, listing_of ''5'' 10000]"

definition unpriced_example :: "listing list" where
  "unpriced_example = [listing_of ''6'' 0, listing_of ''7'' 0]"

text \<open>
  A listing fragment in which no query finds anything and the text holds no digit, and
  one whose first query raises.
\<close>

definition bare_fragment :: fragment where
  \<open>bare_fragment = \<lparr>attr_get = (\<lambda>name. Inr None), select_one = (\<lambda>selector. Inr None),
     html_str = Inr ''<div data-marker="item"><a>-</a></div>'', get_text = Inr ''-''\<rparr>\<close>

definition broken_fragment :: fragment where
  "broken_fragment = bare_fragment\<lparr>attr_get := (\<lambda>name. Inl (OtherException ''not a tag''))\<rparr>"

text \<open>
  Two listing fragments with a price element and nothing else that a query finds: one
  with the price \<^verbatim>\<open>12 500\<close>, one with a run of 400 digits.
\<close>

definition priced_fragment :: fragment where
  \<open>priced_fragment = \<lparr>attr_get = (\<lambda>name. Inr None),
     select_one = (\<lambda>selector. if selector = ''[data-marker="item-price"]''
        then Inr (Some \<lparr>el_text = ''12 500'', el_attrs = Map.empty\<rparr>)
        else Inr None),
     html_str = Inr ''<div data-marker="item"><p data-marker="item-price">12 500</p></div>'',
     get_text = Inr ''12 500''\<rparr>\<close>

definition overflow_fragment :: fragment where
  \<open>overflow_fragment = \<lparr>attr_get = (\<lambda>name. Inr None),
     select_one = (\<lambda>selector. if selector = ''[data-marker="item-price"]''
        then Inr (Some \<lparr>el_text = replicate 400 CHR ''9'', el_attrs = Map.empty\<rparr>)
        else Inr None),
     html_str = Inr (''<div data-marker="item"><p data-marker="item-price">'' @
                     replicate 400 CHR ''9'' @ ''</p></div>''),
     get_text = Inr (replicate 400 CHR ''9'')\<rparr>\<close>






section \<open>Properties of the analyzer\<close>

subsection \<open>Price statistics\<close>

lemma positive_prices_error: "positive_prices ps = Inl e \<Longrightarrow> e = TypeError"
  by (induction ps arbitrary: e rule: positive_prices.induct) (auto split: sum.splits)

lemma positive_prices_numeric:
  "\<forall>p \<in> set ps. \<forall>s. p \<noteq> Str s \<Longrightarrow>
     \<exists>rs. positive_prices ps = Inr rs \<and> length rs \<le> length ps \<and>
          ((\<exists>r. Num r \<in> set ps \<and> 0 < r) \<longleftrightarrow> rs \<noteq> [])"
proof (induction ps rule: positive_prices.induct)
  case 1
  then show ?case by simp
next
  case (2 s ps)
  then show ?case by simp
next
  case (3 ps)
  then show ?case by auto
next
  case (4 r ps)
  then obtain rs where rs: "positive_prices ps = Inr rs" "length rs \<le> length ps"
      "(\<exists>r. Num r \<in> set ps \<and> 0 < r) \<longleftrightarrow> rs \<noteq> []"
    by auto
  show ?case
  proof (cases "0 < r")
    case True
    with rs show ?thesis by auto
  next
    case False
    with rs show ?thesis by auto
  qed
qed

lemma prices_numeric:
  assumes "\<forall>item \<in> set data. \<forall>s. item ''price'' \<noteq> Some (Str s)"
  shows "\<forall>p \<in> set (prices_of data). \<forall>s. p \<noteq> Str s"
  using assms by (auto simp: prices_of_def split: option.splits)

lemma stats_error: "get_price_statistics data = Inl e \<Longrightarrow> e = TypeError"
  by (auto simp: get_price_statistics_def Let_def positive_prices_error
           split: if_splits sum.splits list.splits)

lemma stats_keys:
  assumes "get_price_statistics data = Inr st"
  shows "\<exists>c a m lo hi. getitem st ''count'' = Inr c \<and> getitem st ''avg_price'' = Inr a \<and>
           getitem st ''median_price'' = Inr m \<and> getitem st ''min_price'' = Inr lo \<and>
           getitem st ''max_price'' = Inr hi"
  using assms
  by (auto simp: get_price_statistics_def Let_def getitem_def
           split: if_splits sum.splits list.splits)

lemma stats_defined:
  assumes "\<forall>item \<in> set data. \<forall>s. item ''price'' \<noteq> Some (Str s)"
  shows "\<exists>st. get_price_statistics data = Inr st"
proof -
  from positive_prices_numeric [OF prices_numeric [OF assms]]
  obtain rs where "positive_prices (prices_of data) = Inr rs" by blast
  then show ?thesis
    by (cases rs) (simp_all add: get_price_statistics_def)
qed

lemma spec_example_numeric: "\<forall>item \<in> set spec_example. \<forall>s. item ''price'' \<noteq> Some (Str s)"
  by (simp add: spec_example_def listing_of_def)

lemma unpriced_example_numeric:
  "\<forall>item \<in> set unpriced_example. \<forall>s. item ''price'' \<noteq> Some (Str s)"
  by (simp add: unpriced_example_def listing_of_def)

text \<open>
  On a non-empty list of records whose price, when present, is a number or the
  missing-value marker, never a string, the \<open>count\<close> of the result is the length of the
  input.
\<close>

lemma stats_count:
  assumes "data \<noteq> []" and "\<forall>item \<in> set data. \<forall>s. item ''price'' \<noteq> Some (Str s)"
  shows "\<exists>st. get_price_statistics data = Inr st \<and> st ''count'' = Some (real (length data))"
proof -
  from positive_prices_numeric [OF prices_numeric [OF assms(2)]]
  obtain rs where rs: "positive_prices (prices_of data) = Inr rs"
    by blast
  with assms(1) show ?thesis
    by (cases rs) (simp_all add: get_price_statistics_def)
qed

text \<open>
  Claim C10, at the empty list: the result of \<open>get_price_statistics []\<close> has the six
  entries \<open>count\<close>, \<open>avg_price\<close>, \<open>median_price\<close>, \<open>min_price\<close>, \<open>max_price\<close> and
  \<open>std_price\<close>, all zero, and no \<open>zero_prices_count\<close> entry, unlike the results of the two
  other branches.
\<close>

theorem stats_of_empty_input:
  "get_price_statistics [] =
     Inr [''count'' \<mapsto> 0, ''avg_price'' \<mapsto> 0, ''median_price'' \<mapsto> 0, ''min_price'' \<mapsto> 0,
          ''max_price'' \<mapsto> 0, ''std_price'' \<mapsto> 0] \<and>
   map_sum id (\<lambda>st. st ''zero_prices_count'') (get_price_statistics []) = Inr None"
  by (simp add: get_price_statistics_def)

text \<open>
  On a non-empty input both other branches do set \<open>zero_prices_count\<close>: it is the number
  of records whose price is not strictly positive.
\<close>

lemma positive_prices_length:
  "positive_prices (prices_of data) = Inr rs \<Longrightarrow>
     length rs +
       length (filter (\<lambda>item. case item ''price'' of Some (Num r) \<Rightarrow> \<not> 0 < r | _ \<Rightarrow> True)
                 data) = length data"
proof (induction data arbitrary: rs)
  case Nil
  then show ?case by (simp add: prices_of_def)
next
  case (Cons item data)
  show ?case
  proof (cases "item ''price''")
    case None
    with Cons.prems obtain rs' where
      "positive_prices (prices_of data) = Inr rs'" "rs = rs'"
      by (auto simp: prices_of_def split: sum.splits)
    with Cons.IH [of rs'] None show ?thesis
      by simp
  next
    case (Some v)
    show ?thesis
    proof (cases v)
      case (Num r)
      with Some Cons.prems obtain rs' where
        rs': "positive_prices (prices_of data) = Inr rs'" "rs = (if 0 < r then r # rs' else rs')"
        by (auto simp: prices_of_def split: sum.splits)
      with Cons.IH [of rs'] Some Num show ?thesis
        by simp
    next
      case (Str s)
      with Some Cons.prems show ?thesis by (simp add: prices_of_def)
    next
      case NaN
      with Some Cons.prems have "positive_prices (prices_of data) = Inr rs"
        by (simp add: prices_of_def)
      with Cons.IH [of rs] Some NaN show ?thesis
        by simp
    qed
  qed
qed

lemma stats_zero_prices_count:
  assumes "data \<noteq> []" and "\<forall>item \<in> set data. \<forall>s. item ''price'' \<noteq> Some (Str s)"
  shows "\<exists>st. get_price_statistics data = Inr st \<and>
           st ''zero_prices_count'' =
             Some (real (length
               (filter (\<lambda>item. case item ''price'' of Some (Num r) \<Rightarrow> \<not> 0 < r | _ \<Rightarrow> True)
                  data)))"
proof -
  from positive_prices_numeric [OF prices_numeric [OF assms(2)]]
  obtain rs where rs: "positive_prices (prices_of data) = Inr rs"
    by blast
  from positive_prices_length [OF rs]
  have len: "real (length data) - real (length rs) =
               real (length
                 (filter (\<lambda>item. case item ''price'' of Some (Num r) \<Rightarrow> \<not> 0 < r | _ \<Rightarrow> True)
                    data))"
    by (simp add: of_nat_diff [symmetric] del: of_nat_diff)
  show ?thesis
  proof (cases rs)
    case Nil
    with rs assms(1) len show ?thesis
      by (simp add: get_price_statistics_def)
  next
    case (Cons p ps)
    with rs assms(1) len show ?thesis
      by (simp add: get_price_statistics_def prices_of_def)
  qed
qed

subsection \<open>Comparison\<close>

lemma percent_change_eq:
  "percent_change change previous = Inr (if 0 < previous then change / previous * 100 else 0)"
  by (simp add: percent_change_def py_div_def bind_err_def)

lemma compare_unfold:
  assumes "current_data \<noteq> []" "previous_data \<noteq> []"
    and "get_price_statistics current_data = Inr cs"
    and "get_price_statistics previous_data = Inr ps"
    and "getitem ps ''avg_price'' = Inr pa" "getitem ps ''median_price'' = Inr pm"
  shows "\<exists>c. compare_with_previous current_data previous_data = Inr c \<and>
           (\<exists>ca. c ''avg_price_change_percent'' =
              Some (CNum (if 0 < pa then (ca - pa) / pa * 100 else 0))) \<and>
           (\<exists>cm. c ''median_price_change_percent'' =
              Some (CNum (if 0 < pm then (cm - pm) / pm * 100 else 0)))"
proof -
  from stats_keys [OF assms(3)] obtain cc ca cm clo chi where
    c: "getitem cs ''count'' = Inr cc" "getitem cs ''avg_price'' = Inr ca"
       "getitem cs ''median_price'' = Inr cm" "getitem cs ''min_price'' = Inr clo"
       "getitem cs ''max_price'' = Inr chi"
    by blast
  from stats_keys [OF assms(4)] obtain pc pa' pm' plo phi where
    p: "getitem ps ''count'' = Inr pc" "getitem ps ''avg_price'' = Inr pa'"
       "getitem ps ''median_price'' = Inr pm'" "getitem ps ''min_price'' = Inr plo"
       "getitem ps ''max_price'' = Inr phi"
    by blast
  from p assms(5,6) have [simp]: "pa' = pa" "pm' = pm" by simp_all
  show ?thesis
    using assms(1-4) c p
    by (simp add: compare_with_previous_def bind_err_def percent_change_eq)
qed

lemma compare_error:
  assumes a: "compare_with_previous current_data previous_data = Inl e"
  shows "e = TypeError"
proof -
  from a have ne: "current_data \<noteq> []" "previous_data \<noteq> []"
    by (auto simp: compare_with_previous_def split: if_splits)
  show ?thesis
  proof (cases "get_price_statistics current_data")
    case (Inl e1)
    with a ne stats_error [OF Inl] show ?thesis
      by (simp add: compare_with_previous_def bind_err_def)
  next
    case (Inr cs)
    note cs = this
    show ?thesis
    proof (cases "get_price_statistics previous_data")
      case (Inl e2)
      with a ne cs stats_error [OF Inl] show ?thesis
        by (simp add: compare_with_previous_def bind_err_def)
    next
      case (Inr ps)
      from stats_keys [OF Inr] obtain pa pm where
        "getitem ps ''avg_price'' = Inr pa" "getitem ps ''median_price'' = Inr pm"
        by blast
      from compare_unfold [OF ne cs Inr this] a show ?thesis by auto
    qed
  qed
qed

text \<open>
  Claim C5. \<open>compare_with_previous\<close> never raises \<open>ZeroDivisionError\<close>. For two non-empty
  lists of records (with prices that are not strings), it returns a result in which
  \<open>avg_price_change_percent\<close> is 0 whenever the previous \<open>avg_price\<close> is not positive, and
  \<open>median_price_change_percent\<close> is 0 whenever the previous \<open>median_price\<close> is not positive;
  a previous average of 0 is the case \<open>pa = 0\<close>.
\<close>

theorem compare_percent_zero_when_previous_not_positive:
  "compare_with_previous current_data previous_data \<noteq> Inl ZeroDivisionError \<and>
   (current_data \<noteq> [] \<and> previous_data \<noteq> [] \<and>
    (\<forall>item \<in> set current_data. \<forall>s. item ''price'' \<noteq> Some (Str s)) \<and>
    (\<forall>item \<in> set previous_data. \<forall>s. item ''price'' \<noteq> Some (Str s)) \<longrightarrow>
    (\<exists>previous_stats c pa pm.
       get_price_statistics previous_data = Inr previous_stats \<and>
       compare_with_previous current_data previous_data = Inr c \<and>
       previous_stats ''avg_price'' = Some pa \<and> previous_stats ''median_price'' = Some pm \<and>
       (pa \<le> 0 \<longrightarrow> c ''avg_price_change_percent'' = Some (CNum 0)) \<and>
       (pm \<le> 0 \<longrightarrow> c ''median_price_change_percent'' = Some (CNum 0))))"
proof (intro conjI impI)
  show "compare_with_previous current_data previous_data \<noteq> Inl ZeroDivisionError"
    using compare_error [of current_data previous_data ZeroDivisionError] by auto
next
  assume h: "current_data \<noteq> [] \<and> previous_data \<noteq> [] \<and>
    (\<forall>item \<in> set current_data. \<forall>s. item ''price'' \<noteq> Some (Str s)) \<and>
    (\<forall>item \<in> set previous_data. \<forall>s. item ''price'' \<noteq> Some (Str s))"
  then have ne: "current_data \<noteq> []" "previous_data \<noteq> []" by simp_all
  from h stats_defined [of current_data] obtain cs where
    cs: "get_price_statistics current_data = Inr cs" by blast
  from h stats_defined [of previous_data] obtain ps where
    ps: "get_price_statistics previous_data = Inr ps" by blast
  from stats_keys [OF ps] obtain pa pm where
    k: "getitem ps ''avg_price'' = Inr pa" "getitem ps ''median_price'' = Inr pm"
    by blast
  then have s: "ps ''avg_price'' = Some pa" "ps ''median_price'' = Some pm"
    by (auto simp: getitem_def split: option.splits)
  from compare_unfold [OF ne cs ps k] obtain c where
    c: "compare_with_previous current_data previous_data = Inr c"
       "\<exists>ca. c ''avg_price_change_percent'' =
          Some (CNum (if 0 < pa then (ca - pa) / pa * 100 else 0))"
       "\<exists>cm. c ''median_price_change_percent'' =
          Some (CNum (if 0 < pm then (cm - pm) / pm * 100 else 0))"
    by blast
  from c(2) have a0: "pa \<le> 0 \<longrightarrow> c ''avg_price_change_percent'' = Some (CNum 0)"
    by auto
  from c(3) have m0: "pm \<le> 0 \<longrightarrow> c ''median_price_change_percent'' = Some (CNum 0)"
    by auto
  from ps c(1) s a0 m0 show "\<exists>previous_stats c pa pm.
       get_price_statistics previous_data = Inr previous_stats \<and>
       compare_with_previous current_data previous_data = Inr c \<and>
       previous_stats ''avg_price'' = Some pa \<and> previous_stats ''median_price'' = Some pm \<and>
       (pa \<le> 0 \<longrightarrow> c ''avg_price_change_percent'' = Some (CNum 0)) \<and>
       (pm \<le> 0 \<longrightarrow> c ''median_price_change_percent'' = Some (CNum 0))"
    by blast
qed

text \<open>
  The statement of C5 with the specification's example as current data and two records
  without a price as previous data: the previous average is 0 and both percentages are 0.
\<close>

theorem compare_percent_zero_witness:
  "\<exists>previous_stats c.
     get_price_statistics unpriced_example = Inr previous_stats \<and>
     compare_with_previous spec_example unpriced_example = Inr c \<and>
     previous_stats ''avg_price'' = Some 0 \<and>
     c ''avg_price_change_percent'' = Some (CNum 0) \<and>
     c ''median_price_change_percent'' = Some (CNum 0)"
proof -
  have ne: "spec_example \<noteq> []" "unpriced_example \<noteq> []"
    by (simp_all add: spec_example_def unpriced_example_def)
  have st: "get_price_statistics unpriced_example =
     Inr [''count'' \<mapsto> 2, ''avg_price'' \<mapsto> 0, ''median_price'' \<mapsto> 0, ''min_price'' \<mapsto> 0,
          ''max_price'' \<mapsto> 0, ''std_price'' \<mapsto> 0, ''zero_prices_count'' \<mapsto> 2]"
    by (simp add: get_price_statistics_def unpriced_example_def listing_of_def prices_of_def)
  from compare_percent_zero_when_previous_not_positive
         [of spec_example unpriced_example]
       ne spec_example_numeric unpriced_example_numeric
  obtain previous_stats c pa pm where
    r: "get_price_statistics unpriced_example = Inr previous_stats"
       "compare_with_previous spec_example unpriced_example = Inr c"
       "previous_stats ''avg_price'' = Some pa" "previous_stats ''median_price'' = Some pm"
       "pa \<le> 0 \<longrightarrow> c ''avg_price_change_percent'' = Some (CNum 0)"
       "pm \<le> 0 \<longrightarrow> c ''median_price_change_percent'' = Some (CNum 0)"
    by blast
  from r(1,3,4) st have "pa = 0" "pm = 0" by auto
  with r show ?thesis by auto
qed

subsection \<open>Outliers\<close>

lemma sample_std_bound: "3960 < sqrt 19602000"
  by (rule real_less_rsqrt) simp

lemma spec_example_has_price: "has_column spec_example ''price''"
  by (simp add: has_column_def spec_example_def listing_of_def)

lemma spec_example_rows:
  "rows_with_positive_price (map (df_row spec_example) spec_example) =
     Inr (map (\<lambda>r. (case r ''price'' of Some (Num p) \<Rightarrow> p | _ \<Rightarrow> 0, df_row spec_example r))
            spec_example)"
  using spec_example_has_price by (simp add: spec_example_def df_row_def listing_of_def)

lemma spec_example_prices:
  "map fst (map (\<lambda>r. (case r ''price'' of Some (Num p) \<Rightarrow> p | _ \<Rightarrow> 0, df_row spec_example r))
     spec_example) = [100, 100, 100, 100, 10000]"
  by (simp add: spec_example_def listing_of_def)

lemma spec_example_pd_std: "pd_std [100, 100, 100, 100, 10000] = Some (sqrt 19602000)"
  by (simp add: pd_std_def pd_mean_def)

lemma spec_example_pd_mean: "pd_mean [100, 100, 100, 100, 10000] = 2080"
  by (simp add: pd_mean_def)

lemma spec_example_no_outliers: "find_outliers spec_example 2 = Inr []"
  using sample_std_bound spec_example_has_price
  apply (simp add: find_outliers_def spec_example_rows spec_example_prices
      spec_example_pd_std spec_example_pd_mean Let_def del: map_map)
  apply (simp add: spec_example_def listing_of_def abs_if field_simps)
  done

text \<open>
  Claim C1 as the code has it. On the records with prices 100, 100, 100, 100 and 10000
  and the threshold 2.0, \<open>find_outliers\<close> returns no record. The z-score is
  \<open>(price - mean) / std\<close> with the mean 2080 and the sample standard deviation (divisor
  \<open>n - 1\<close>, which is what \<^verbatim>\<open>Series.std()\<close> computes) \<open>sqrt 19602000\<close>, about 4427.4; the
  record with price 10000 has the z-score \<open>7920 / sqrt 19602000\<close>, which is below 2.
\<close>

theorem find_outliers_spec_example:
  "find_outliers spec_example 2 = Inr [] \<and>
   pd_mean [100, 100, 100, 100, 10000] = 2080 \<and>
   pd_std [100, 100, 100, 100, 10000] = Some (sqrt 19602000) \<and>
   \<bar>(10000 - 2080) / sqrt 19602000\<bar> < 2"
proof -
  have "\<bar>(10000 - 2080) / sqrt 19602000\<bar> < 2"
    using sample_std_bound by (simp add: abs_if field_simps)
  with spec_example_no_outliers spec_example_pd_std spec_example_pd_mean show ?thesis
    by simp
qed

text \<open>
  Claim C1 as the specification states it fails: the result is not the list holding the
  record with price 10000. Nor would the population standard deviation flag that record:
  it is 3960, which puts the z-score at exactly 2, and the test is a strict comparison.
\<close>

theorem find_outliers_spec_example_counterexample:
  "find_outliers spec_example 2 \<noteq> Inr [listing_of ''5'' 10000] \<and>
   np_std [100, 100, 100, 100, 10000] = 3960 \<and>
   \<not> 2 < \<bar>(10000 - np_mean [100, 100, 100, 100, 10000]) / np_std [100, 100, 100, 100, 10000]\<bar>"
proof -
  have "np_std [100, 100, 100, 100, 10000] = 3960"
    by (simp add: np_std_def np_mean_def)
  moreover have "np_mean [100, 100, 100, 100, 10000] = 2080"
    by (simp add: np_mean_def)
  ultimately show ?thesis
    using spec_example_no_outliers by simp
qed

text \<open>
  When all strictly positive prices are equal there is no spread and no outlier: the sample
  standard deviation is 0, or undefined for a single price.
\<close>

lemma rows_numeric:
  "\<forall>r \<in> set rs. \<forall>s. r ''price'' \<noteq> Some (Str s) \<Longrightarrow>
     \<exists>out. rows_with_positive_price rs = Inr out \<and>
       (\<forall>(p, r) \<in> set out. r \<in> set rs \<and> r ''price'' = Some (Num p) \<and> 0 < p)"
proof (induction rs)
  case Nil
  then show ?case by simp
next
  case (Cons r rs)
  then obtain out where out: "rows_with_positive_price rs = Inr out"
      "\<forall>(p, r) \<in> set out. r \<in> set rs \<and> r ''price'' = Some (Num p) \<and> 0 < p"
    by auto
  show ?case
  proof (cases "r ''price''")
    case None
    with out show ?thesis by auto
  next
    case (Some v)
    with Cons.prems out show ?thesis
      by (cases v) auto
  qed
qed

lemma df_row_price:
  "has_column data ''price'' \<Longrightarrow>
     df_row data r ''price'' = Some (case r ''price'' of None \<Rightarrow> NaN | Some v \<Rightarrow> v)"
  by (simp add: df_row_def)

lemma pd_std_constant:
  assumes "\<forall>x \<in> set xs. x = v" and "2 \<le> length xs"
  shows "pd_std xs = Some 0"
proof -
  from assms(1) have xs: "xs = replicate (length xs) v"
    by (induction xs) auto
  have s: "sum_list (replicate n v) = real n * v" for n
    by (induction n) (simp_all add: algebra_simps)
  from assms(2) have "xs \<noteq> []" by auto
  then have "pd_mean xs = v"
    unfolding pd_mean_def by (subst xs) (simp add: s)
  moreover have "sum_list (map (\<lambda>x. (x - v)\<^sup>2) xs) = 0"
    using assms(1) by (induction xs) auto
  ultimately show ?thesis
    using assms(2) by (simp add: pd_std_def)
qed

lemma find_outliers_equal_prices:
  assumes col: "has_column data ''price''"
    and num: "\<forall>item \<in> set data. \<forall>s. item ''price'' \<noteq> Some (Str s)"
    and eq: "\<forall>item \<in> set data. \<forall>p. item ''price'' = Some (Num p) \<and> 0 < p \<longrightarrow> p = v"
  shows "find_outliers data z_threshold = Inr []"
proof -
  have "\<forall>r \<in> set (map (df_row data) data). \<forall>s. r ''price'' \<noteq> Some (Str s)"
    using num col by (auto simp: df_row_price split: option.splits)
  from rows_numeric [OF this] obtain out where
    out: "rows_with_positive_price (map (df_row data) data) = Inr out"
      "\<forall>(p, r) \<in> set out. r \<in> set (map (df_row data) data) \<and> r ''price'' = Some (Num p) \<and> 0 < p"
    by blast
  have same: "\<forall>x \<in> set (map fst out). x = v"
  proof
    fix x assume "x \<in> set (map fst out)"
    then obtain r where "(x, r) \<in> set out" by auto
    with out(2) obtain item where item: "item \<in> set data"
        "df_row data item ''price'' = Some (Num x)" "0 < x"
      by auto
    from item(2) col have "item ''price'' = Some (Num x)"
      by (auto simp: df_row_price split: option.splits)
    with eq item(1,3) show "x = v" by blast
  qed
  show ?thesis
  proof (cases "length (map fst out) < 2")
    case True
    with out(1) col show ?thesis
      by (simp add: find_outliers_def pd_std_def Let_def)
  next
    case False
    then have "pd_std (map fst out) = Some 0"
      by (intro pd_std_constant [OF same]) simp
    with out(1) col show ?thesis
      by (simp add: find_outliers_def Let_def)
  qed
qed

section \<open>Properties of the parser\<close>

subsection \<open>Fetcher\<close>






subsection \<open>Field extractor\<close>

lemma bind_err_Inr: "bind_err m f = Inr y \<longleftrightarrow> (\<exists>x. m = Inr x \<and> f x = Inr y)"
  by (cases m) (simp_all add: bind_err_def)

lemma float_of_value_range:
  "0 \<le> v \<Longrightarrow> float_of_value v = PosInf \<or> (\<exists>r. float_of_value v = Finite r \<and> 0 \<le> r)"
  by (simp add: float_of_value_def)

lemma py_float_range:
  assumes "py_float s = Inr p"
  shows "p = PosInf \<or> (\<exists>r. p = Finite r \<and> 0 \<le> r)"
proof -
  have nn: "0 \<le> real a + real b / 10 ^ k" for a b k
    by simp
  from assms have "\<exists>v. p = float_of_value v \<and> 0 \<le> v"
    unfolding py_float_def Let_def
    by (auto split: list.splits if_splits intro: nn)
  then obtain v where "0 \<le> v" and "p = float_of_value v"
    by blast
  with float_of_value_range [of v] show ?thesis by simp
qed

lemma markup_price_range:
  "markup_price ps s = Some p \<Longrightarrow> p = PosInf \<or> (\<exists>r. p = Finite r \<and> 0 \<le> r)"
proof (induction ps s rule: markup_price.induct)
  case (1 s)
  then show ?case by simp
next
  case (2 pre suf ps s)
  show ?case
  proof (cases "search_price pre suf s")
    case None
    with 2 show ?thesis by simp
  next
    case (Some g)
    show ?thesis
    proof (cases "py_float g")
      case (Inl e)
      with 2 Some show ?thesis by simp
    next
      case (Inr v)
      with 2(3) Some have "p = v" by simp
      with py_float_range [OF Inr] show ?thesis by simp
    qed
  qed
qed

lemma select_first_no_match:
  "\<forall>sel \<in> set sels. \<forall>el. select_one f sel \<noteq> Inr (Some el) \<Longrightarrow>
     select_first f sels \<noteq> Inr (Some el)"
  by (induction sels) (auto split: sum.splits option.splits)

lemma markup_price_no_match:
  "\<forall>(pre, suf) \<in> set ps. search_price pre suf s = None \<Longrightarrow> markup_price ps s = None"
  by (induction ps s rule: markup_price.induct) auto

lemma extract_id_result:
  "extract_id f d = Inr d' \<Longrightarrow> \<exists>v. d' = d(''id'' \<mapsto> Str v)"
  by (auto simp: extract_id_def bind_err_Inr split: if_splits)

lemma extract_title_result:
  "extract_title f d = Inr d' \<Longrightarrow> \<exists>v. d' = d(''title'' \<mapsto> Str v)"
  by (auto simp: extract_title_def bind_err_Inr)

lemma extract_url_result:
  "extract_url f d = Inr d' \<Longrightarrow> \<exists>v. d' = d(''url'' \<mapsto> Str v)"
  by (auto simp: extract_url_def bind_err_Inr)

lemma extract_date_result:
  "extract_date f d = Inr d' \<Longrightarrow> \<exists>v. d' = d(''date'' \<mapsto> Str v)"
  by (auto simp: extract_date_def bind_err_Inr)

lemma extract_location_result:
  "extract_location f d = Inr d' \<Longrightarrow> \<exists>v. d' = d(''location'' \<mapsto> Str v)"
  by (auto simp: extract_location_def bind_err_Inr Let_def split: option.splits if_splits)

lemma digit_value_le: "is_digit c \<Longrightarrow> digit_value c \<le> 9"
  by (auto simp: is_digit_def digit_value_def)

lemma foldl_digits_bound:
  "list_all is_digit ds \<Longrightarrow>
     foldl (\<lambda>n c. 10 * n + digit_value c) a ds < (a + 1) * 10 ^ length ds"
proof (induction ds arbitrary: a)
  case Nil
  then show ?case by simp
next
  case (Cons c ds)
  then have c: "digit_value c \<le> 9" and ds: "list_all is_digit ds"
    by (simp_all add: digit_value_le)
  from Cons.IH [OF ds, of "10 * a + digit_value c"]
  have "foldl (\<lambda>n c. 10 * n + digit_value c) a (c # ds) <
          (10 * a + digit_value c + 1) * 10 ^ length ds"
    by simp
  also from c have "\<dots> \<le> (10 * a + 10) * 10 ^ length ds"
    by (intro mult_right_mono) simp_all
  also have "\<dots> = (a + 1) * 10 ^ length (c # ds)"
    by (simp add: algebra_simps)
  finally show ?case .
qed

lemma nat_of_digits_bound: "list_all is_digit ds \<Longrightarrow> nat_of_digits ds < 10 ^ length ds"
  using foldl_digits_bound [of ds 0] by (simp add: nat_of_digits_def)

lemma length_strip: "length (strip s) \<le> length s"
proof -
  have "length (strip s) \<le> length (dropWhile is_space s)"
    unfolding strip_def using length_dropWhile_le [of is_space "rev (dropWhile is_space s)"]
    by simp
  also have "\<dots> \<le> length s"
    by (rule length_dropWhile_le)
  finally show ?thesis .
qed

lemma float_of_value_finite:
  assumes "0 \<le> v" and "v < 10 ^ 308"
  shows "\<exists>r. float_of_value v = Finite r \<and> 0 \<le> r"
proof -
  have "(10::real) ^ 308 \<le> 2 ^ 1024 - 2 ^ 970"
    by simp
  with assms(2) have "\<not> 2 ^ 1024 - 2 ^ 970 \<le> v"
    by linarith
  with assms(1) show ?thesis
    by (simp add: float_of_value_def)
qed

lemma py_float_finite:
  assumes run: "py_float s = Inr p" and short: "length s \<le> 308"
  shows "\<exists>r. p = Finite r \<and> 0 \<le> r"
proof -
  define t where "t = strip s"
  define ip where "ip = takeWhile is_digit t"
  have ip: "list_all is_digit ip"
    unfolding ip_def list_all_iff by (auto dest: set_takeWhileD)
  have "length ip + length (dropWhile is_digit t) = length t"
    unfolding ip_def by (metis length_append takeWhile_dropWhile_id)
  with length_strip [of s] short have len: "length ip + length (dropWhile is_digit t) \<le> 308"
    by (simp add: t_def)
  have pow: "(10::real) ^ length ip \<le> 10 ^ 308"
    using len by (intro power_increasing) simp_all
  from nat_of_digits_bound [OF ip] have "real (nat_of_digits ip) < real (10 ^ length ip)"
    by (rule of_nat_less_iff [THEN iffD2])
  then have whole: "real (nat_of_digits ip) < 10 ^ length ip"
    by simp
  show ?thesis
  proof (cases "dropWhile is_digit t")
    case Nil
    with run have "p = float_of_value (real (nat_of_digits ip))"
      by (simp add: py_float_def t_def [symmetric] ip_def [symmetric] split: if_splits)
    moreover from whole pow have "real (nat_of_digits ip) < 10 ^ 308"
      by linarith
    ultimately show ?thesis
      using float_of_value_finite [of "real (nat_of_digits ip)"] by simp
  next
    case (Cons c fp)
    with run have fp: "list_all is_digit fp"
      and p: "p = float_of_value
                    (real (nat_of_digits ip) + real (nat_of_digits fp) / 10 ^ length fp)"
      by (simp_all add: py_float_def t_def [symmetric] ip_def [symmetric] split: if_splits)
    from nat_of_digits_bound [OF fp] have "real (nat_of_digits fp) < real (10 ^ length fp)"
      by (rule of_nat_less_iff [THEN iffD2])
    then have frac: "real (nat_of_digits fp) / 10 ^ length fp < 1"
      by simp
    from nat_of_digits_bound [OF ip] have "nat_of_digits ip + 1 \<le> 10 ^ length ip"
      by simp
    then have "real (nat_of_digits ip + 1) \<le> real (10 ^ length ip)"
      by (rule of_nat_le_iff [THEN iffD2])
    then have "real (nat_of_digits ip) + 1 \<le> 10 ^ length ip"
      by simp
    with frac pow
    have "real (nat_of_digits ip) + real (nat_of_digits fp) / 10 ^ length fp < 10 ^ 308"
      by linarith
    moreover have "0 \<le> real (nat_of_digits ip) + real (nat_of_digits fp) / 10 ^ length fp"
      by simp
    ultimately show ?thesis
      using float_of_value_finite p by simp
  qed
qed

lemma markup_price_source:
  "markup_price ps s = Some p \<Longrightarrow>
     \<exists>(pre, suf) \<in> set ps. \<exists>g. search_price pre suf s = Some g \<and> py_float g = Inr p"
proof (induction ps s rule: markup_price.induct)
  case (1 s)
  then show ?case by simp
next
  case (2 pre suf ps s)
  show ?case
  proof (cases "search_price pre suf s")
    case None
    with 2 show ?thesis by simp
  next
    case (Some g)
    show ?thesis
    proof (cases "py_float g")
      case (Inl e)
      with 2 Some show ?thesis by simp
    next
      case (Inr v)
      with 2(3) Some have "p = v" by simp
      with Some Inr show ?thesis by simp
    qed
  qed
qed

text \<open>
  Where the price of a record comes from: it is left as it was, or it is the float of
  the digits and dots of the price element, of the digit group of a markup pattern, or of
  the number at the head of the visible text.
\<close>

lemma extract_price_source:
  assumes "extract_price f d = Inr d'" and "d ''price'' = Some (Num (Finite 0))"
  shows "d' = d \<or>
    (\<exists>el p. select_first f price_selectors = Inr (Some el) \<and>
       py_float (filter (\<lambda>x. is_digit x \<or> x = CHR ''.'') (strip (el_text el))) = Inr p \<and>
       d' = d(''price'' \<mapsto> Num p)) \<or>
    (\<exists>s p. html_str f = Inr s \<and> markup_price price_patterns s = Some p \<and>
       d' = d(''price'' \<mapsto> Num p)) \<or>
    (\<exists>t g p. get_text f = Inr t \<and> search_text_price t = Some g \<and>
       py_float (filter (\<lambda>c. c \<noteq> CHR 0x20) g) = Inr p \<and> d' = d(''price'' \<mapsto> Num p))"
proof -
  from assms(1) obtain pe d1 where
    pe: "select_first f price_selectors = Inr pe"
    and d1: "(case pe of
          Some el \<Rightarrow>
            (let price_text = strip (el_text el);
                 price = filter (\<lambda>x. is_digit x \<or> x = CHR ''.'') price_text
             in Inr (d(''price'' \<mapsto>
                  Num (if price = [] then Finite 0
                       else case py_float price of Inr v \<Rightarrow> v | Inl e \<Rightarrow> Finite 0))))
        | None \<Rightarrow>
            bind_err (html_str f) (\<lambda>s.
              Inr (case markup_price price_patterns s of
                     Some v \<Rightarrow> d(''price'' \<mapsto> Num v)
                   | None \<Rightarrow> d))) = Inr d1"
    and rest: "(case d1 ''price'' of
            None \<Rightarrow> Inl KeyError
          | Some current \<Rightarrow>
              if current = Num (Finite 0) then
                bind_err (get_text f) (\<lambda>full_text.
                  Inr (case search_text_price full_text of
                         None \<Rightarrow> d1
                       | Some g \<Rightarrow>
                           (case py_float (filter (\<lambda>c. c \<noteq> CHR 0x20) g) of
                              Inr v \<Rightarrow> d1(''price'' \<mapsto> Num v)
                            | Inl e \<Rightarrow> d1)))
              else Inr d1) = Inr d'"
    unfolding extract_price_def bind_err_Inr by blast
  have same: "d(''price'' \<mapsto> Num (Finite 0)) = d"
    using assms(2) by (simp add: fun_upd_idem)
  have s1: "d1 = d \<or>
    (\<exists>el p. select_first f price_selectors = Inr (Some el) \<and>
       py_float (filter (\<lambda>x. is_digit x \<or> x = CHR ''.'') (strip (el_text el))) = Inr p \<and>
       d1 = d(''price'' \<mapsto> Num p)) \<or>
    (\<exists>s p. html_str f = Inr s \<and> markup_price price_patterns s = Some p \<and>
       d1 = d(''price'' \<mapsto> Num p))"
  proof (cases pe)
    case None
    with d1 obtain s where s: "html_str f = Inr s"
      "d1 = (case markup_price price_patterns s of
               Some v \<Rightarrow> d(''price'' \<mapsto> Num v) | None \<Rightarrow> d)"
      by (auto simp: bind_err_Inr)
    show ?thesis
    proof (cases "markup_price price_patterns s")
      case None
      with s show ?thesis by simp
    next
      case (Some v)
      with s have "d1 = d(''price'' \<mapsto> Num v)" by simp
      with s(1) Some show ?thesis by blast
    qed
  next
    case (Some el)
    define price where "price = filter (\<lambda>x. is_digit x \<or> x = CHR ''.'') (strip (el_text el))"
    from d1 Some have d1eq: "d1 = d(''price'' \<mapsto>
        Num (if price = [] then Finite 0
             else case py_float price of Inr v \<Rightarrow> v | Inl e \<Rightarrow> Finite 0))"
      by (auto simp: Let_def price_def)
    show ?thesis
    proof (cases "py_float price")
      case (Inl e)
      with d1eq same show ?thesis by simp
    next
      case (Inr x)
      show ?thesis
      proof (cases "price = []")
        case True
        with d1eq same show ?thesis by simp
      next
        case False
        with d1eq Inr have "d1 = d(''price'' \<mapsto> Num x)" by simp
        with pe Some Inr show ?thesis
          unfolding price_def by blast
      qed
    qed
  qed
  show ?thesis
  proof (cases "d1 ''price'' = Some (Num (Finite 0))")
    case False
    from s1 assms(2) False obtain v where "d1 ''price'' = Some v" "v \<noteq> Num (Finite 0)"
      by auto
    with rest have "d' = d1" by simp
    with s1 show ?thesis by blast
  next
    case True
    with s1 same have unchanged: "d1 = d"
      by (auto simp: fun_upd_idem)
    from rest True obtain t where t: "get_text f = Inr t"
      "d' = (case search_text_price t of
               None \<Rightarrow> d1
             | Some g \<Rightarrow>
                 (case py_float (filter (\<lambda>c. c \<noteq> CHR 0x20) g) of
                    Inr v \<Rightarrow> d1(''price'' \<mapsto> Num v)
                  | Inl e \<Rightarrow> d1))"
      by (auto simp: bind_err_Inr)
    show ?thesis
    proof (cases "search_text_price t")
      case None
      with t unchanged show ?thesis by simp
    next
      case (Some g)
      show ?thesis
      proof (cases "py_float (filter (\<lambda>c. c \<noteq> CHR 0x20) g)")
        case (Inl e)
        with t Some unchanged show ?thesis by simp
      next
        case (Inr v)
        with t Some unchanged have "d' = d(''price'' \<mapsto> Num v)" by simp
        with t(1) Some Inr show ?thesis by blast
      qed
    qed
  qed
qed

lemma extract_price_result:
  assumes "extract_price f d = Inr d'" and "d ''price'' = Some (Num (Finite 0))"
  shows "\<exists>p. (p = PosInf \<or> (\<exists>r. p = Finite r \<and> 0 \<le> r)) \<and> d' = d(''price'' \<mapsto> Num p)"
proof -
  have same: "d = d(''price'' \<mapsto> Num (Finite 0))"
    using assms(2) by (simp add: fun_upd_idem)
  from extract_price_source [OF assms] consider
    (kept) "d' = d"
  | (element) el p where "select_first f price_selectors = Inr (Some el)"
      "py_float (filter (\<lambda>x. is_digit x \<or> x = CHR ''.'') (strip (el_text el))) = Inr p"
      "d' = d(''price'' \<mapsto> Num p)"
  | (markup) s p where "html_str f = Inr s" "markup_price price_patterns s = Some p"
      "d' = d(''price'' \<mapsto> Num p)"
  | (visible) t g p where "get_text f = Inr t" "search_text_price t = Some g"
      "py_float (filter (\<lambda>c. c \<noteq> CHR 0x20) g) = Inr p" "d' = d(''price'' \<mapsto> Num p)"
    by blast
  then show ?thesis
  proof cases
    case kept
    with same have "d' = d(''price'' \<mapsto> Num (Finite 0))" by simp
    then show ?thesis by blast
  next
    case element
    with py_float_range [OF element(2)] show ?thesis by blast
  next
    case markup
    with markup_price_range [OF markup(2)] show ?thesis by blast
  next
    case visible
    with py_float_range [OF visible(3)] show ?thesis by blast
  qed
qed

lemma extract_price_finite:
  assumes run: "extract_price f d = Inr d'" and zero: "d ''price'' = Some (Num (Finite 0))"
    and element: "\<forall>el. select_first f price_selectors = Inr (Some el) \<longrightarrow>
       length (filter (\<lambda>x. is_digit x \<or> x = CHR ''.'') (strip (el_text el))) \<le> 308"
    and markup: "\<forall>s. html_str f = Inr s \<longrightarrow>
       (\<forall>(pre, suf) \<in> set price_patterns. \<forall>g. search_price pre suf s = Some g \<longrightarrow>
          length g \<le> 308)"
    and vis: "\<forall>t g. get_text f = Inr t \<and> search_text_price t = Some g \<longrightarrow> length g \<le> 308"
  shows "\<exists>r. 0 \<le> r \<and> d' = d(''price'' \<mapsto> Num (Finite r))"
proof -
  have same: "d = d(''price'' \<mapsto> Num (Finite 0))"
    using zero by (simp add: fun_upd_idem)
  from extract_price_source [OF run zero] consider
    (kept) "d' = d"
  | (element) el p where "select_first f price_selectors = Inr (Some el)"
      "py_float (filter (\<lambda>x. is_digit x \<or> x = CHR ''.'') (strip (el_text el))) = Inr p"
      "d' = d(''price'' \<mapsto> Num p)"
  | (markup) s p where "html_str f = Inr s" "markup_price price_patterns s = Some p"
      "d' = d(''price'' \<mapsto> Num p)"
  | (visible) t g p where "get_text f = Inr t" "search_text_price t = Some g"
      "py_float (filter (\<lambda>c. c \<noteq> CHR 0x20) g) = Inr p" "d' = d(''price'' \<mapsto> Num p)"
    by blast
  then show ?thesis
  proof cases
    case kept
    with same have "d' = d(''price'' \<mapsto> Num (Finite 0))" by simp
    then show ?thesis by blast
  next
    case element
    from \<open>\<forall>el. select_first f price_selectors = Inr (Some el) \<longrightarrow> _\<close> element(1)
    have "length (filter (\<lambda>x. is_digit x \<or> x = CHR ''.'') (strip (el_text el))) \<le> 308"
      by blast
    from py_float_finite [OF element(2) this] element(3) show ?thesis by blast
  next
    case markup
    from markup_price_source [OF markup(2)] obtain pre suf g where
      g: "(pre, suf) \<in> set price_patterns" "search_price pre suf s = Some g"
        "py_float g = Inr p"
      by blast
    with \<open>\<forall>s. html_str f = Inr s \<longrightarrow> _\<close> markup(1) have "length g \<le> 308"
      by blast
    from py_float_finite [OF g(3) this] markup(3) show ?thesis by blast
  next
    case visible
    with vis have "length g \<le> 308" by blast
    moreover have "length (filter (\<lambda>c. c \<noteq> CHR 0x20) g) \<le> length g"
      by (rule length_filter_le)
    ultimately have "length (filter (\<lambda>c. c \<noteq> CHR 0x20) g) \<le> 308"
      by linarith
    from py_float_finite [OF visible(3) this] visible(4) show ?thesis by blast
  qed
qed

lemma extract_price_unmatched:
  assumes sel: "\<forall>sel \<in> set price_selectors. \<forall>el. select_one f sel \<noteq> Inr (Some el)"
    and markup: "\<forall>s. html_str f = Inr s \<longrightarrow>
                   (\<forall>(pre, suf) \<in> set price_patterns. search_price pre suf s = None)"
    and vis: "\<forall>t. get_text f = Inr t \<longrightarrow> search_text_price t = None"
    and zero: "d ''price'' = Some (Num (Finite 0))"
    and run: "extract_price f d = Inr d'"
  shows "d' = d"
proof -
  from run obtain pe where pe: "select_first f price_selectors = Inr pe"
    unfolding extract_price_def bind_err_Inr by blast
  with select_first_no_match [OF sel] have none: "pe = None"
    by (cases pe) auto
  from run pe none obtain s where s: "html_str f = Inr s"
    unfolding extract_price_def by (cases "html_str f") (auto simp: bind_err_def)
  with markup have mp: "markup_price price_patterns s = None"
    by (intro markup_price_no_match) blast
  with run pe none s zero mp obtain t where t: "get_text f = Inr t"
    unfolding extract_price_def by (cases "get_text f") (auto simp: bind_err_def)
  with vis have "search_text_price t = None" by blast
  with run pe none s zero t mp show ?thesis
    unfolding extract_price_def by (simp add: bind_err_def)
qed

lemma parse_item_body_result:
  assumes "parse_item_body f = Inr d"
  obtains i t u p dt l where
    "p = PosInf \<or> (\<exists>r. p = Finite r \<and> 0 \<le> r)"
    and "(\<forall>el. select_first f price_selectors = Inr (Some el) \<longrightarrow>
            length (filter (\<lambda>x. is_digit x \<or> x = CHR ''.'') (strip (el_text el))) \<le> 308) \<and>
         (\<forall>s. html_str f = Inr s \<longrightarrow>
            (\<forall>(pre, suf) \<in> set price_patterns. \<forall>g. search_price pre suf s = Some g \<longrightarrow>
               length g \<le> 308)) \<and>
         (\<forall>v g. get_text f = Inr v \<and> search_text_price v = Some g \<longrightarrow> length g \<le> 308)
         \<longrightarrow> (\<exists>r. p = Finite r \<and> 0 \<le> r)"
    and "d = initial_item(''id'' \<mapsto> Str i, ''title'' \<mapsto> Str t, ''url'' \<mapsto> Str u,
               ''price'' \<mapsto> Num p, ''date'' \<mapsto> Str dt, ''location'' \<mapsto> Str l)"
proof -
  from assms obtain d1 d2 d3 d4 d5 where
    steps: "extract_id f initial_item = Inr d1" "extract_title f d1 = Inr d2"
      "extract_url f d2 = Inr d3" "extract_price f d3 = Inr d4" "extract_date f d4 = Inr d5"
      "extract_location f d5 = Inr d"
    unfolding parse_item_body_def bind_err_Inr by blast
  from extract_id_result [OF steps(1)] obtain i where
    d1: "d1 = initial_item(''id'' \<mapsto> Str i)" by blast
  from extract_title_result [OF steps(2)] obtain t where
    d2: "d2 = d1(''title'' \<mapsto> Str t)" by blast
  from extract_url_result [OF steps(3)] obtain u where
    d3: "d3 = d2(''url'' \<mapsto> Str u)" by blast
  have zero: "d3 ''price'' = Some (Num (Finite 0))"
    by (simp add: d3 d2 d1 initial_item_def)
  from extract_price_result [OF steps(4) zero] obtain p where
    p: "p = PosInf \<or> (\<exists>r. p = Finite r \<and> 0 \<le> r)" and d4: "d4 = d3(''price'' \<mapsto> Num p)"
    by blast
  have finite: "(\<forall>el. select_first f price_selectors = Inr (Some el) \<longrightarrow>
            length (filter (\<lambda>x. is_digit x \<or> x = CHR ''.'') (strip (el_text el))) \<le> 308) \<and>
         (\<forall>s. html_str f = Inr s \<longrightarrow>
            (\<forall>(pre, suf) \<in> set price_patterns. \<forall>g. search_price pre suf s = Some g \<longrightarrow>
               length g \<le> 308)) \<and>
         (\<forall>v g. get_text f = Inr v \<and> search_text_price v = Some g \<longrightarrow> length g \<le> 308)
         \<longrightarrow> (\<exists>r. p = Finite r \<and> 0 \<le> r)"
  proof (intro impI, elim conjE)
    assume element: "\<forall>el. select_first f price_selectors = Inr (Some el) \<longrightarrow>
               length (filter (\<lambda>x. is_digit x \<or> x = CHR ''.'') (strip (el_text el))) \<le> 308"
      and markup: "\<forall>s. html_str f = Inr s \<longrightarrow>
               (\<forall>(pre, suf) \<in> set price_patterns. \<forall>g. search_price pre suf s = Some g \<longrightarrow>
                  length g \<le> 308)"
      and vis: "\<forall>v g. get_text f = Inr v \<and> search_text_price v = Some g \<longrightarrow> length g \<le> 308"
    from extract_price_finite [OF steps(4) zero element markup vis] obtain r where
      r: "0 \<le> r" "d4 = d3(''price'' \<mapsto> Num (Finite r))"
      by blast
    from r(2) d4 have "(d3(''price'' \<mapsto> Num p)) ''price'' =
                        (d3(''price'' \<mapsto> Num (Finite r))) ''price''"
      by simp
    then have "p = Finite r" by simp
    with r(1) show "\<exists>r. p = Finite r \<and> 0 \<le> r" by simp
  qed
  from extract_date_result [OF steps(5)] obtain dt where
    d5: "d5 = d4(''date'' \<mapsto> Str dt)" by blast
  from extract_location_result [OF steps(6)] obtain l where
    d: "d = d5(''location'' \<mapsto> Str l)" by blast
  have shape: "d = initial_item(''id'' \<mapsto> Str i, ''title'' \<mapsto> Str t, ''url'' \<mapsto> Str u,
                 ''price'' \<mapsto> Num p, ''date'' \<mapsto> Str dt, ''location'' \<mapsto> Str l)"
    unfolding d d5 d4 d3 d2 d1 by (rule refl)
  from p finite shape show ?thesis
    by (rule that)
qed

lemma parse_item_body_unmatched:
  assumes sel: "\<forall>sel \<in> set price_selectors. \<forall>el. select_one f sel \<noteq> Inr (Some el)"
    and markup: "\<forall>s. html_str f = Inr s \<longrightarrow>
                   (\<forall>(pre, suf) \<in> set price_patterns. search_price pre suf s = None)"
    and vis: "\<forall>t. get_text f = Inr t \<longrightarrow> search_text_price t = None"
    and run: "parse_item_body f = Inr d"
  shows "d ''price'' = Some (Num (Finite 0))"
proof -
  from run obtain d1 d2 d3 d4 d5 where
    steps: "extract_id f initial_item = Inr d1" "extract_title f d1 = Inr d2"
      "extract_url f d2 = Inr d3" "extract_price f d3 = Inr d4" "extract_date f d4 = Inr d5"
      "extract_location f d5 = Inr d"
    unfolding parse_item_body_def bind_err_Inr by blast
  from extract_id_result [OF steps(1)] obtain i where
    d1: "d1 = initial_item(''id'' \<mapsto> Str i)" by blast
  from extract_title_result [OF steps(2)] obtain t where
    d2: "d2 = d1(''title'' \<mapsto> Str t)" by blast
  from extract_url_result [OF steps(3)] obtain u where
    d3: "d3 = d2(''url'' \<mapsto> Str u)" by blast
  have zero: "d3 ''price'' = Some (Num (Finite 0))"
    by (simp add: d3 d2 d1 initial_item_def)
  from extract_price_unmatched [OF sel markup vis zero steps(4)] have d4: "d4 = d3" .
  from extract_date_result [OF steps(5)] obtain dt where
    d5: "d5 = d4(''date'' \<mapsto> Str dt)" by blast
  from extract_location_result [OF steps(6)] obtain l where
    d: "d = d5(''location'' \<mapsto> Str l)" by blast
  from zero show ?thesis
    by (simp add: d d5 d4)
qed

lemma parse_item_returns: "\<exists>d. parse_item f = Inr d"
  by (cases "parse_item_body f") (simp_all add: parse_item_def)

lemma broken_fragment_result:
  "parse_item broken_fragment =
     Inr [''id'' \<mapsto> Str [], ''title'' \<mapsto> Str [], ''url'' \<mapsto> Str [],
          ''price'' \<mapsto> Num (Finite 0), ''date'' \<mapsto> Str [], ''location'' \<mapsto> Str [],
          ''error'' \<mapsto> Str ''not a tag'']"
  by (simp add: parse_item_def parse_item_body_def extract_id_def get_attr_def bind_err_def
      broken_fragment_def)

text \<open>
  Claim C3. \<open>parse_item\<close> returns a record for every fragment: no exception leaves it,
  whatever the queries on the fragment answer or raise. On a fragment where no price
  selector matches, none of the four markup patterns matches the markup and the visible
  text holds no price token, the record's price is the zero sentinel.
\<close>

theorem parse_item_total:
  "\<exists>d. parse_item f = Inr d \<and>
     ((\<forall>sel \<in> set price_selectors. \<forall>el. select_one f sel \<noteq> Inr (Some el)) \<and>
      (\<forall>s. html_str f = Inr s \<longrightarrow>
         (\<forall>(pre, suf) \<in> set price_patterns. search_price pre suf s = None)) \<and>
      (\<forall>t. get_text f = Inr t \<longrightarrow> search_text_price t = None)
      \<longrightarrow> d ''price'' = Some (Num (Finite 0)))"
proof (cases "parse_item_body f")
  case (Inl e)
  then show ?thesis by (simp add: parse_item_def)
next
  case (Inr d)
  then have "parse_item f = Inr d" by (simp add: parse_item_def)
  with parse_item_body_unmatched [OF _ _ _ Inr] show ?thesis by blast
qed

text \<open>The statement of C3 at a fragment without any price.\<close>

theorem parse_item_total_witness:
  "\<exists>d. parse_item bare_fragment = Inr d \<and> d ''price'' = Some (Num (Finite 0))"
proof -
  have sel: "\<forall>sel \<in> set price_selectors. \<forall>el. select_one bare_fragment sel \<noteq> Inr (Some el)"
    by (simp add: bare_fragment_def)
  have markup: "\<forall>s. html_str bare_fragment = Inr s \<longrightarrow>
         (\<forall>(pre, suf) \<in> set price_patterns. search_price pre suf s = None)"
    by (simp add: bare_fragment_def price_patterns_def starts_with_def)
  have vis: "\<forall>t. get_text bare_fragment = Inr t \<longrightarrow> search_text_price t = None"
    by (simp add: bare_fragment_def search_text_price_def is_digit_def)
  from parse_item_total [of bare_fragment] sel markup vis show ?thesis
    by blast
qed

text \<open>
  Claim C4 as the code has it. For every fragment, on the normal path and on the
  \<^verbatim>\<open>except\<close> path alike, the record returned by \<open>parse_item\<close> has the fields \<open>id\<close>,
  \<open>title\<close>, \<open>url\<close>, \<open>date\<close> and \<open>location\<close> (strings) and \<open>price\<close>, and the price is a
  number, never a string and never missing, that is not negative: a finite number, or
  \<open>+inf\<close>. It is finite whenever every price token the extractor can read has at most
  308 characters: the digits and dots of the price element's text, the digit group that a
  markup pattern finds, and the number at the head of the visible text.
\<close>

theorem parse_item_record_shape:
  "\<exists>d i t u p dt l. parse_item f = Inr d \<and>
     d ''id'' = Some (Str i) \<and> d ''title'' = Some (Str t) \<and> d ''url'' = Some (Str u) \<and>
     d ''price'' = Some (Num p) \<and> (p = PosInf \<or> (\<exists>r. p = Finite r \<and> 0 \<le> r)) \<and>
     d ''date'' = Some (Str dt) \<and> d ''location'' = Some (Str l) \<and>
     ((\<forall>el. select_first f price_selectors = Inr (Some el) \<longrightarrow>
         length (filter (\<lambda>x. is_digit x \<or> x = CHR ''.'') (strip (el_text el))) \<le> 308) \<and>
      (\<forall>s. html_str f = Inr s \<longrightarrow>
         (\<forall>(pre, suf) \<in> set price_patterns. \<forall>g. search_price pre suf s = Some g \<longrightarrow>
            length g \<le> 308)) \<and>
      (\<forall>v g. get_text f = Inr v \<and> search_text_price v = Some g \<longrightarrow> length g \<le> 308)
      \<longrightarrow> (\<exists>r. p = Finite r \<and> 0 \<le> r))"
proof (cases "parse_item_body f")
  case (Inl e)
  then have "parse_item f =
      Inr [''id'' \<mapsto> Str [], ''title'' \<mapsto> Str [], ''url'' \<mapsto> Str [],
           ''price'' \<mapsto> Num (Finite 0), ''date'' \<mapsto> Str [], ''location'' \<mapsto> Str [],
           ''error'' \<mapsto> Str (error_message e)]"
    by (simp add: parse_item_def)
  then show ?thesis by simp
next
  case (Inr d)
  from Inr obtain i t u p dt l where
    p: "p = PosInf \<or> (\<exists>r. p = Finite r \<and> 0 \<le> r)"
    and finite: "(\<forall>el. select_first f price_selectors = Inr (Some el) \<longrightarrow>
         length (filter (\<lambda>x. is_digit x \<or> x = CHR ''.'') (strip (el_text el))) \<le> 308) \<and>
      (\<forall>s. html_str f = Inr s \<longrightarrow>
         (\<forall>(pre, suf) \<in> set price_patterns. \<forall>g. search_price pre suf s = Some g \<longrightarrow>
            length g \<le> 308)) \<and>
      (\<forall>v g. get_text f = Inr v \<and> search_text_price v = Some g \<longrightarrow> length g \<le> 308)
      \<longrightarrow> (\<exists>r. p = Finite r \<and> 0 \<le> r)"
    and d: "d = initial_item(''id'' \<mapsto> Str i, ''title'' \<mapsto> Str t, ''url'' \<mapsto> Str u,
                 ''price'' \<mapsto> Num p, ''date'' \<mapsto> Str dt, ''location'' \<mapsto> Str l)"
    by (rule parse_item_body_result)
  from Inr have run: "parse_item f = Inr d" by (simp add: parse_item_def)
  have fields: "d ''id'' = Some (Str i)" "d ''title'' = Some (Str t)" "d ''url'' = Some (Str u)"
    "d ''price'' = Some (Num p)" "d ''date'' = Some (Str dt)" "d ''location'' = Some (Str l)"
    by (simp_all add: d)
  show ?thesis
    by (rule exI [of _ d], rule exI [of _ i], rule exI [of _ t], rule exI [of _ u],
        rule exI [of _ p], rule exI [of _ dt], rule exI [of _ l], intro conjI)
       (fact run fields p finite)+
qed

text \<open>
  The statement of C4 at a fragment whose price element reads \<^verbatim>\<open>12 500\<close>: the price of
  its record is a finite number.
\<close>

theorem parse_item_record_shape_witness:
  "\<exists>d r. parse_item priced_fragment = Inr d \<and> d ''price'' = Some (Num (Finite r)) \<and> 0 \<le> r"
proof -
  have element: "\<forall>el. select_first priced_fragment price_selectors = Inr (Some el) \<longrightarrow>
         length (filter (\<lambda>x. is_digit x \<or> x = CHR ''.'') (strip (el_text el))) \<le> 308"
    by (auto simp: priced_fragment_def price_selectors_def strip_def is_space_def)
  have markup: "\<forall>s. html_str priced_fragment = Inr s \<longrightarrow>
         (\<forall>(pre, suf) \<in> set price_patterns. \<forall>g. search_price pre suf s = Some g \<longrightarrow>
            length g \<le> 308)"
    by (simp add: priced_fragment_def price_patterns_def starts_with_def)
  have vis: "\<forall>v g. get_text priced_fragment = Inr v \<and> search_text_price v = Some g \<longrightarrow>
         length g \<le> 308"
    by (auto simp: priced_fragment_def search_text_price_def is_digit_def is_space_def)
  from parse_item_record_shape [of priced_fragment] element markup vis show ?thesis
    by blast
qed

lemma nat_of_digits_nines:
  "foldl (\<lambda>n c. 10 * n + digit_value c) a (replicate k CHR ''9'') = (a + 1) * 10 ^ k - 1"
proof (induction k arbitrary: a)
  case 0
  then show ?case by simp
next
  case (Suc k)
  have "digit_value CHR ''9'' = 9" by (simp add: digit_value_def)
  then have "foldl (\<lambda>n c. 10 * n + digit_value c) a (replicate (Suc k) CHR ''9'') =
               (10 * a + 9 + 1) * 10 ^ k - 1"
    using Suc.IH [of "10 * a + 9"] by simp
  also have "(10 * a + 9 + 1) * 10 ^ k = (a + 1) * 10 ^ Suc k"
    by (simp add: algebra_simps)
  finally show ?case .
qed

lemma float_range_below_400_nines: "(2::real) ^ 1024 - 2 ^ 970 \<le> real (10 ^ 400 - 1)"
  by simp

lemma strip_nines: "strip (replicate 400 CHR ''9'') = replicate 400 CHR ''9''"
  by (simp add: strip_def is_space_def)

lemma py_float_nines: "py_float (replicate 400 CHR ''9'') = Inr PosInf"
proof -
  have d: "is_digit CHR ''9''" by (simp add: is_digit_def)
  have tw: "takeWhile is_digit (replicate 400 CHR ''9'') = replicate 400 CHR ''9''"
    using d by simp
  have dw: "dropWhile is_digit (replicate 400 CHR ''9'') = []"
    using d by simp
  have n: "nat_of_digits (replicate 400 CHR ''9'') = 10 ^ 400 - 1"
    unfolding nat_of_digits_def using nat_of_digits_nines [of 0 400] by simp
  have ne: "replicate 400 CHR ''9'' \<noteq> []" by simp
  show ?thesis
    unfolding py_float_def strip_nines Let_def tw dw n float_of_value_def
    using float_range_below_400_nines ne by simp
qed

lemma overflow_fragment_price:
  "extract_price overflow_fragment d = Inr (d(''price'' \<mapsto> Num PosInf))"
proof -
  have sel: "select_first overflow_fragment price_selectors =
               Inr (Some \<lparr>el_text = replicate 400 CHR ''9'', el_attrs = Map.empty\<rparr>)"
    by (simp add: price_selectors_def overflow_fragment_def)
  have flt: "filter (\<lambda>x. is_digit x \<or> x = CHR ''.'') (replicate 400 CHR ''9'') =
               replicate 400 CHR ''9''"
    by (simp add: is_digit_def)
  show ?thesis
    unfolding extract_price_def sel
    by (simp add: bind_err_def strip_nines flt py_float_nines)
qed

lemma overflow_fragment_result:
  "parse_item overflow_fragment =
     Inr [''id'' \<mapsto> Str [], ''title'' \<mapsto> Str no_title, ''url'' \<mapsto> Str [],
          ''price'' \<mapsto> Num PosInf, ''date'' \<mapsto> Str [], ''location'' \<mapsto> Str not_specified]"
proof -
  have i: "extract_id overflow_fragment d = Inr (d(''id'' \<mapsto> Str []))" for d
    by (simp add: extract_id_def get_attr_def bind_err_def overflow_fragment_def)
  have t: "extract_title overflow_fragment d = Inr (d(''title'' \<mapsto> Str no_title))" for d
    by (simp add: extract_title_def title_selectors_def bind_err_def overflow_fragment_def)
  have u: "extract_url overflow_fragment d = Inr (d(''url'' \<mapsto> Str []))" for d
    by (simp add: extract_url_def link_selectors_def bind_err_def overflow_fragment_def)
  have dt: "extract_date overflow_fragment d = Inr (d(''date'' \<mapsto> Str []))" for d
    by (simp add: extract_date_def bind_err_def overflow_fragment_def)
  have l: "extract_location overflow_fragment d = Inr (d(''location'' \<mapsto> Str not_specified))"
    for d
    by (simp add: extract_location_def location_selectors_def bind_err_def
        overflow_fragment_def)
  have "parse_item_body overflow_fragment =
     Inr [''id'' \<mapsto> Str [], ''title'' \<mapsto> Str no_title, ''url'' \<mapsto> Str [],
          ''price'' \<mapsto> Num PosInf, ''date'' \<mapsto> Str [], ''location'' \<mapsto> Str not_specified]"
    by (simp add: parse_item_body_def bind_err_def i t u overflow_fragment_price dt l
        initial_item_def)
  then show ?thesis
    by (simp add: parse_item_def)
qed

text \<open>
  Claim C4 as the specification states it fails. The price element of the fragment holds
  a run of 400 digits; \<^verbatim>\<open>float\<close> of such a run is \<^verbatim>\<open>inf\<close>, no exception is raised, and
  the record leaves the extractor with a price that is not finite.
\<close>

theorem parse_item_infinite_price_counterexample:
  "map_sum id (\<lambda>d. d ''price'') (parse_item overflow_fragment) = Inr (Some (Num PosInf))"
  by (simp add: overflow_fragment_result)

subsection \<open>Paginator\<close>

text \<open>
  Claim C8, at a URL whose only query parameter is \<^verbatim>\<open>localPriority=1\<close>: the test for
  \<^verbatim>\<open>&localPriority=1\<close> does not see the parameter after the \<^verbatim>\<open>?\<close>, and the parameter
  is appended a second time.
\<close>

theorem add_local_priority_repeats_parameter:
  "add_local_priority ''https://www.avito.ru/moskva?localPriority=1'' True =
     ''https://www.avito.ru/moskva?localPriority=1&localPriority=1''"
  by (simp add: add_local_priority_def starts_with_def)

lemma add_local_priority_examples:
  "add_local_priority ''https://www.avito.ru/moskva?q=a&localPriority=1'' True =
     ''https://www.avito.ru/moskva?q=a&localPriority=1''"
  "add_local_priority ''https://www.avito.ru/moskva'' True =
     ''https://www.avito.ru/moskva?localPriority=1''"
  "add_local_priority ''https://www.avito.ru/moskva?q=a'' True =
     ''https://www.avito.ru/moskva?q=a&localPriority=1''"
  by (simp_all add: add_local_priority_def starts_with_def)

lemma parse_items_result:
  "\<exists>ds. parse_items items limit c acc = Inr (c + int (length ds), acc @ ds) \<and>
        length ds = min (length items) (nat (limit - c))"
proof (induction items arbitrary: c acc)
  case Nil
  then show ?case by simp
next
  case (Cons item items)
  show ?case
  proof (cases "c \<ge> limit")
    case True
    then show ?thesis by simp
  next
    case False
    from parse_item_returns obtain d where d: "parse_item item = Inr d" by blast
    from Cons.IH [of "c + 1" "acc @ [d]"] obtain ds where
      ds: "parse_items items limit (c + 1) (acc @ [d]) =
             Inr (c + 1 + int (length ds), (acc @ [d]) @ ds)"
          "length ds = min (length items) (nat (limit - (c + 1)))"
      by blast
    have "parse_items (item # items) limit c acc =
            Inr (c + int (length (d # ds)), acc @ (d # ds))"
      using False d ds(1) by simp
    moreover have "length (d # ds) = min (length (item # items)) (nat (limit - c))"
      using False ds(2) by auto
    ultimately show ?thesis by blast
  qed
qed

lemma search_loop_terminates:
  "c = int (length acc) \<Longrightarrow>
   \<exists>res st'. search_loop w cfg url limit pn c acc st = Some (res, st') \<and>
     (case res of Inl e \<Rightarrow> True | Inr items \<Rightarrow> int (length items) \<le> max c limit)"
proof (induction "nat (limit - c)" arbitrary: c acc pn st rule: less_induct)
  case less
  show ?case
  proof (cases "c < limit")
    case False
    then show ?thesis
      using less.prems by (subst search_loop.simps) simp
  next
    case True
    obtain r st1 where mr: "make_request w cfg (page_url_of url pn) st = (r, st1)"
      by (cases "make_request w cfg (page_url_of url pn) st")
    show ?thesis
    proof (cases r)
      case (Inl e)
      with True mr show ?thesis
        by (subst search_loop.simps) simp
    next
      case (Inr content)
      show ?thesis
      proof (cases content)
        case None
        with True mr Inr less.prems show ?thesis
          by (subst search_loop.simps) simp
      next
        case (Some html)
        show ?thesis
        proof (cases "html = [] \<or> select_items w html = []")
          case True
          with \<open>c < limit\<close> mr Inr Some less.prems show ?thesis
            by (subst search_loop.simps) auto
        next
          case False
          define items where "items = select_items w html"
          from False have ne: "html \<noteq> []" "items \<noteq> []" by (simp_all add: items_def)
          from parse_items_result [of items limit c acc] obtain ds where
            ds: "parse_items items limit c acc = Inr (c + int (length ds), acc @ ds)"
                "length ds = min (length items) (nat (limit - c))"
            by blast
          from ds(2) ne(2) True have pos: "0 < length ds"
            by (cases items) auto
          from ds(2) have le: "c + int (length ds) \<le> limit"
            using True by auto
          have len: "c + int (length ds) = int (length (acc @ ds))"
            using less.prems by simp
          show ?thesis
          proof (cases "c + int (length ds) \<ge> limit \<or> length items < 50")
            case True
            with \<open>c < limit\<close> mr Inr Some ne ds(1) le len show ?thesis
              by (subst search_loop.simps) (auto simp: items_def [symmetric] Let_def)
          next
            case False
            obtain j st2 where u: "uniform w 0 2 st1 = (j, st2)"
              by (cases "uniform w 0 2 st1")
            show ?thesis
            proof (cases "time_sleep (real_of_int (delay cfg) + j) st2")
              case (Inl e)
              with False \<open>c < limit\<close> mr Inr Some ne ds(1) u show ?thesis
                by (subst search_loop.simps) (auto simp: items_def [symmetric] Let_def)
            next
              case (Inr st3)
              have dec: "nat (limit - (c + int (length ds))) < nat (limit - c)"
                using pos \<open>c < limit\<close> by simp
              from less.hyps [OF dec len, of "pn + 1" st3] obtain res st' where
                r: "search_loop w cfg url limit (pn + 1) (c + int (length ds)) (acc @ ds) st3
                      = Some (res, st')"
                   "case res of Inl e \<Rightarrow> True
                    | Inr items \<Rightarrow> int (length items) \<le> max (c + int (length ds)) limit"
                by blast
              have step: "search_loop w cfg url limit pn c acc st =
                    search_loop w cfg url limit (pn + 1) (c + int (length ds)) (acc @ ds) st3"
                using False \<open>c < limit\<close> mr \<open>r = Inr content\<close> Some ne ds(1) u Inr
                by (subst search_loop.simps) (auto simp: items_def [symmetric] Let_def)
              from r(2) le \<open>c < limit\<close> have
                "case res of Inl e \<Rightarrow> True | Inr items \<Rightarrow> int (length items) \<le> max c limit"
                by (auto split: sum.splits)
              with step r(1) show ?thesis by simp
            qed
          qed
        qed
      qed
    qed
  qed
qed

text \<open>
  Claim C7. The pagination loop ends for every URL, every limit, every configuration and
  every world (every sequence of fetch results): \<open>parse_search_page\<close> is never \<open>None\<close>. An
  iteration that does not stop appends at least one record (see \<open>parse_items_result\<close>) and
  the count stays at or below the limit, so a returned list has at most \<open>max 0 limit\<close>
  records.
\<close>

theorem parse_search_page_terminates:
  "\<exists>res st'. parse_search_page w cfg url limit local_first st = Some (res, st') \<and>
     (case res of Inl e \<Rightarrow> True | Inr items \<Rightarrow> int (length items) \<le> max 0 limit)"
  unfolding parse_search_page_def
  using search_loop_terminates [of 0 "[]" w cfg "add_local_priority url local_first" limit 1 st]
  by simp







end
